theory Spec2Isabelle
  imports Complex_Main "HOL-Library.Log_Nat"
begin

text \<open>
  A model of the component \<^verbatim>\<open>FaceCanvas\<close> of \<^verbatim>\<open>src/components/FaceCanvas.tsx\<close>:
  its geometry helpers, the state it keeps, the two asynchronous effects that create the
  detector and run the detection, the handlers that edit the marker list, and the
  overlays it derives from the mesh. The definitions come first, the properties after.
\<close>

section \<open>Numbers\<close>

text \<open>
  The component is written in TypeScript; its \<^verbatim>\<open>number\<close> values are modelled as
  \<^typ>\<open>real\<close>, without \<^verbatim>\<open>NaN\<close> or an infinity. The geometry of the overlays and
  of the markers is modelled with exact arithmetic. The image fit is modelled with the
  arithmetic of the double format, since \<^verbatim>\<open>Math.round\<close> makes the last bit of
  its quotient visible in the result.
  \<^verbatim>\<open>Math.round\<close> rounds to the nearest integer, a tie going up;
  \<^verbatim>\<open>Math.hypot(a, b)\<close> is the Euclidean norm.
\<close>

definition Math_round :: "real \<Rightarrow> real" where
  "Math_round v = of_int \<lfloor>v + 1 / 2\<rfloor>"

definition Math_hypot :: "real \<Rightarrow> real \<Rightarrow> real" where
  "Math_hypot a b = sqrt (a * a + b * b)"

subsection \<open>Rounding to the double format\<close>

text \<open>
  The binary exponent of a positive number: \<open>expo x = e\<close> when
  \<open>2\<^sup>e \<le> x < 2\<^sup>e\<^sup>+\<^sup>1\<close>.
\<close>

definition expo :: "real \<Rightarrow> int" where
  "expo x =
     (if 1 \<le> x then int (floorlog 2 (nat \<lfloor>x\<rfloor>)) - 1
      else - int (floorlog 2 (nat (\<lceil>1 / x\<rceil> - 1))))"

text \<open>Rounding to the nearest integer, a tie going to the even one.\<close>

definition rne :: "real \<Rightarrow> int" where
  "rne v =
     (let f = \<lfloor>v\<rfloor>;
          d = v - of_int f
      in if d < 1 / 2 then f
         else if d > 1 / 2 then f + 1
         else if even f then f else f + 1)"

text \<open>
  The value that a JavaScript operator returns for the exact result \<open>x\<close>: the nearest
  number with a significand of 53 bits, a tie going to the even significand. The range
  of the exponent is not bounded here, so this is the IEEE 754 result when that result is
  a normal number, of magnitude between \<open>2\<^sup>-\<^sup>1\<^sup>0\<^sup>2\<^sup>2\<close> and \<open>2\<^sup>1\<^sup>0\<^sup>2\<^sup>4\<close>; an
  overflow to an infinity and the coarser rounding of the subnormal numbers are not
  modelled.
\<close>

definition binary64 :: "real \<Rightarrow> real" where
  "binary64 x =
     (if x = 0 then 0
      else (let a = \<bar>x\<bar>;
                e = expo a
            in sgn x * of_int (rne (a * 2 powi (52 - e))) * 2 powi (e - 52)))"

section \<open>Image fitting\<close>

record Size =
  width :: real
  height :: real

definition DEFAULT_STAGE_WIDTH :: real where
  "DEFAULT_STAGE_WIDTH = 800"

definition DEFAULT_STAGE_HEIGHT :: real where
  "DEFAULT_STAGE_HEIGHT = 800"

text \<open>
  The two quotients, and the quotient or the product that is handed to
  \<^verbatim>\<open>Math.round\<close>, are each rounded to the double format, as the operators
  \<^verbatim>\<open>/\<close> and \<^verbatim>\<open>*\<close> do.
\<close>

definition fitImage :: "real \<Rightarrow> real \<Rightarrow> real \<Rightarrow> real \<Rightarrow> Size" where
  "fitImage imageWidth imageHeight stageW stageH =
     (let imgRatio = binary64 (imageWidth / imageHeight);
          stageRatio = binary64 (stageW / stageH)
      in if imgRatio > stageRatio
         then \<lparr>width = stageW, height = Math_round (binary64 (stageW / imgRatio))\<rparr>
         else \<lparr>width = Math_round (binary64 (stageH * imgRatio)), height = stageH\<rparr>)"

section \<open>Thrown values and array reads\<close>

text \<open>
  What a JavaScript \<^verbatim>\<open>throw\<close> carries: \<^verbatim>\<open>null\<close> (the initial value of
  \<^verbatim>\<open>lastErr\<close>), the \<^verbatim>\<open>TypeError\<close> of reading a property of
  \<^verbatim>\<open>undefined\<close>, or an error raised by the model library.
\<close>

datatype Thrown = ThrownNull | TypeError | LibError string

text \<open>\<^verbatim>\<open>xs[i]\<close>: reading past the end of an array gives \<^verbatim>\<open>undefined\<close>.\<close>

definition at_index :: "'a list \<Rightarrow> nat \<Rightarrow> 'a option" where
  "at_index xs i = (if i < length xs then Some (xs ! i) else None)"

section \<open>Geometry helpers\<close>

record XY =
  px :: real
  py :: real

text \<open>
  \<^verbatim>\<open>type Landmark = [number, number, number?]\<close>. A mesh is a \<^verbatim>\<open>Landmark[]\<close>, a
  list without holes: \<^verbatim>\<open>landmarks[i]\<close> is \<^verbatim>\<open>undefined\<close> exactly when \<open>i\<close> is past
  the end.
\<close>

record Landmark =
  lm0 :: real
  lm1 :: real
  lm2 :: "real option"

text \<open>
  \<^verbatim>\<open>indicesToXY\<close>: the points of the listed mesh indices, or \<^verbatim>\<open>null\<close> when the
  mesh is empty or one index has no landmark. A landmark of the declared type always
  has a number in its first slot, so the test \<^verbatim>\<open>typeof lm[0] !== "number"\<close> adds
  nothing to \<^verbatim>\<open>!lm\<close> here.
\<close>

fun indicesToXY_loop :: "nat list \<Rightarrow> Landmark list \<Rightarrow> XY list \<Rightarrow> XY list option" where
  "indicesToXY_loop [] landmarks pts = Some pts"
| "indicesToXY_loop (i # indices) landmarks pts =
     (case at_index landmarks i of
        None \<Rightarrow> None
      | Some lm \<Rightarrow> indicesToXY_loop indices landmarks (pts @ [\<lparr>px = lm0 lm, py = lm1 lm\<rparr>]))"

definition indicesToXY :: "nat list \<Rightarrow> Landmark list \<Rightarrow> XY list option" where
  "indicesToXY indices landmarks =
     (if length landmarks = 0 then None else indicesToXY_loop indices landmarks [])"

fun flattenPts :: "XY list \<Rightarrow> real list" where
  "flattenPts [] = []"
| "flattenPts (p # pts) = px p # py p # flattenPts pts"

subsection \<open>Sampling along a polyline\<close>

record Sample =
  sx :: real
  sy :: real
  nx :: real
  ny :: real

text \<open>
  The first loop of \<^verbatim>\<open>samplesAlong\<close>: the segment lengths and their sum
  (\<^verbatim>\<open>total\<close> in the source, \<open>tot\<close> here). It runs
  while \<^verbatim>\<open>i < pts.length - 1\<close>; reading \<^verbatim>\<open>.x\<close> of a point that is not there
  would throw a \<^verbatim>\<open>TypeError\<close>.
\<close>

function segLens_loop ::
  "XY list \<Rightarrow> nat \<Rightarrow> real list \<Rightarrow> real \<Rightarrow> Thrown + (real list \<times> real)" where
  "segLens_loop pts i segLens tot =
     (if int i < int (length pts) - 1
      then (case (at_index pts (i + 1), at_index pts i) of
              (Some b, Some a) \<Rightarrow>
                (let dx = px b - px a;
                     dy = py b - py a;
                     l = Math_hypot dx dy
                 in segLens_loop pts (i + 1) (segLens @ [l]) (tot + l))
            | _ \<Rightarrow> Inl TypeError)
      else Inr (segLens, tot))"
  by pat_completeness auto
termination
  by (relation "measure (\<lambda>(pts, i, segLens, tot). length pts - i)") auto

declare segLens_loop.simps [simp del]

text \<open>
  The inner \<^verbatim>\<open>while\<close> loop: it walks the segments while the length run so far plus
  the current segment stays below \<open>t\<close>. The index test comes first, so
  \<^verbatim>\<open>segLens[segIdx]\<close> is only read in range.
\<close>

function find_segment :: "real list \<Rightarrow> real \<Rightarrow> real \<Rightarrow> nat \<Rightarrow> real \<times> nat" where
  "find_segment segLens t accum segIdx =
     (if segIdx < length segLens \<and> accum + segLens ! segIdx < t
      then find_segment segLens t (accum + segLens ! segIdx) (segIdx + 1)
      else (accum, segIdx))"
  by pat_completeness auto
termination
  by (relation "measure (\<lambda>(segLens, t, accum, segIdx). length segLens - segIdx)") auto

declare find_segment.simps [simp del]

text \<open>\<^verbatim>\<open>v || 1\<close> for a number that may be \<^verbatim>\<open>undefined\<close>: both 0 and
  \<^verbatim>\<open>undefined\<close> are falsy.\<close>

definition or_one :: "real option \<Rightarrow> real" where
  "or_one v = (case v of None \<Rightarrow> 1 | Some l \<Rightarrow> if l = 0 then 1 else l)"

text \<open>
  The segment index one sample uses: the result of the inner loop, clamped to the last
  segment. (\<^verbatim>\<open>segLens\<close> has at least one entry when the samples are taken.)
\<close>

definition locate :: "real list \<Rightarrow> real \<Rightarrow> real \<times> nat" where
  "locate segLens t =
     (let (accum, segIdx) = find_segment segLens t 0 0
      in (accum, if segIdx \<ge> length segLens then length segLens - 1 else segIdx))"

definition sample_t :: "real \<Rightarrow> nat \<Rightarrow> nat \<Rightarrow> real" where
  "sample_t tot n s = (real s + 0.5) / real n * tot"

text \<open>The body of the sampling loop, for the sample number \<open>s\<close>.\<close>

definition sample_at :: "XY list \<Rightarrow> real list \<Rightarrow> real \<Rightarrow> nat \<Rightarrow> nat \<Rightarrow> Thrown + Sample" where
  "sample_at pts segLens tot n s =
     (let t = sample_t tot n s;
          (accum, segIdx) = locate segLens t;
          localT = (t - accum) / or_one (at_index segLens segIdx)
      in case (at_index pts segIdx, at_index pts (segIdx + 1)) of
           (Some a, Some b) \<Rightarrow>
             (let x = px a + (px b - px a) * localT;
                  y = py a + (py b - py a) * localT;
                  vx = px b - px a;
                  vy = py b - py a;
                  len = or_one (Some (Math_hypot vx vy))
              in Inr \<lparr>sx = x, sy = y, nx = - vy / len, ny = vx / len\<rparr>)
         | _ \<Rightarrow> Inl TypeError)"

function samples_loop ::
  "XY list \<Rightarrow> real list \<Rightarrow> real \<Rightarrow> nat \<Rightarrow> nat \<Rightarrow> Sample list \<Rightarrow> Thrown + Sample list" where
  "samples_loop pts segLens tot n s samples =
     (if s < n
      then (case sample_at pts segLens tot n s of
              Inl e \<Rightarrow> Inl e
            | Inr smp \<Rightarrow> samples_loop pts segLens tot n (s + 1) (samples @ [smp]))
      else Inr samples)"
  by pat_completeness auto
termination
  by (relation "measure (\<lambda>(pts, segLens, tot, n, s, samples). n - s)") auto

declare samples_loop.simps [simp del]

text \<open>
  \<^verbatim>\<open>samplesAlong(pts, n = 10)\<close>. The number of samples is a count, a natural number
  here; the component calls it with 12.
\<close>

definition samplesAlong :: "XY list \<Rightarrow> nat \<Rightarrow> Thrown + Sample list" where
  "samplesAlong pts n =
     (if length pts < 2 then Inr []
      else case segLens_loop pts 0 [] 0 of
             Inl e \<Rightarrow> Inl e
           | Inr (segLens, tot) \<Rightarrow>
               if tot = 0 then Inr [] else samples_loop pts segLens tot n 0 [])"

section \<open>The component's state\<close>

text \<open>
  \<^verbatim>\<open>type AnnotationPoint = { id; x; y; product?; dose? }\<close>. The field names carry a
  prefix because \<open>id\<close> is a constant of HOL.
\<close>

record AnnotationPoint =
  ap_id :: string
  ap_x :: real
  ap_y :: real
  ap_product :: "string option"
  ap_dose :: "string option"

text \<open>
  The detector is an object of the model library; the component only stores it and asks
  whether it has a \<^verbatim>\<open>dispose\<close> method.
\<close>

record Detector =
  det_name :: string
  det_has_dispose :: bool

text \<open>What an awaited call of the library does: it resolves with a value or it rejects.\<close>

datatype 'a Outcome = Resolves 'a | Rejects Thrown

text \<open>
  The console, and the calls the component makes into the library, are the effects that
  are visible from outside; both are kept as lists, in the order of the events.
\<close>

datatype LogEntry = ConsoleWarn string "Thrown option" | ConsoleError string "Thrown option"

datatype Call =
    Call_setBackend
  | Call_ready
  | Call_createDetector
  | Call_load
  | Call_dispose
  | Call_estimateFaces nat

text \<open>
  The \<^verbatim>\<open>useState\<close> cells the properties are about (the file, the data URL and the
  display toggles are left out; of the image element only whether it is there), the two
  effect logs, and the number of identifiers \<^verbatim>\<open>nanoid()\<close> has handed out.
\<close>

record State =
  landmarks :: "Landmark list"
  points :: "AnnotationPoint list"
  detector :: "Detector option"
  imgEl :: bool
  imageFit :: "Size option"
  stageSize :: Size
  console :: "LogEntry list"
  calls :: "Call list"
  nanoid_calls :: nat

definition initial_state :: State where
  "initial_state =
     \<lparr>landmarks = [], points = [], detector = None, imgEl = False, imageFit = None,
      stageSize = \<lparr>width = DEFAULT_STAGE_WIDTH, height = DEFAULT_STAGE_HEIGHT\<rparr>,
      console = [], calls = [], nanoid_calls = 0\<rparr>"

text \<open>
  \<^verbatim>\<open>nanoid()\<close>: the \<open>k\<close>-th call returns \<open>gen k\<close>. That every call returns an
  identifier no earlier call returned is the assumption \<open>inj gen\<close> of the theorems that
  need it.
\<close>

definition nanoid :: "(nat \<Rightarrow> string) \<Rightarrow> State \<Rightarrow> string \<times> State" where
  "nanoid gen st = (gen (nanoid_calls st), st\<lparr>nanoid_calls := Suc (nanoid_calls st)\<rparr>)"

definition console_log :: "LogEntry \<Rightarrow> State \<Rightarrow> State" where
  "console_log entry st = st\<lparr>console := console st @ [entry]\<rparr>"

definition call :: "Call \<Rightarrow> State \<Rightarrow> State" where
  "call c st = st\<lparr>calls := calls st @ [c]\<rparr>"

section \<open>Creating the detector\<close>

text \<open>
  What the environment does during one run of \<^verbatim>\<open>setup()\<close>: the outcome of each
  awaited library call, and whether the component is still mounted when the call comes
  back (the effect's cleanup sets \<^verbatim>\<open>mounted = false\<close>).
\<close>

record SetupEnv =
  setBackend_result :: "unit Outcome"
  ready_result :: "unit Outcome"
  createDetector_result :: "Detector Outcome"
  mounted_after_create :: bool
  dispose_result :: "unit Outcome"
  load_result :: "Detector Outcome"
  mounted_after_load :: bool

text \<open>The handler \<^verbatim>\<open>catch (errCreate)\<close>: the legacy \<^verbatim>\<open>load()\<close>.\<close>

definition setup_legacy :: "SetupEnv \<Rightarrow> Thrown \<Rightarrow> State \<Rightarrow> State \<times> Thrown option" where
  "setup_legacy env errCreate st =
     (let st1 = console_log (ConsoleWarn ''createDetector failed; trying legacy load():'' (Some errCreate)) st;
          st2 = call Call_load st1
      in case load_result env of
           Resolves created \<Rightarrow>
             (if mounted_after_load env then st2\<lparr>detector := Some created\<rparr> else st2, None)
         | Rejects errLegacy \<Rightarrow>
             (console_log (ConsoleError ''Both createDetector and legacy load() failed:'' (Some errLegacy)) st2,
              Some errLegacy))"

text \<open>
  The body of the outer \<^verbatim>\<open>try\<close>; the second component is what it throws, if it
  throws. The inner \<^verbatim>\<open>try\<close> covers \<^verbatim>\<open>createDetector\<close> and also the
  \<^verbatim>\<open>dispose()\<close> of a detector that arrives after the unmount.
\<close>

definition setup_try :: "SetupEnv \<Rightarrow> State \<Rightarrow> State \<times> Thrown option" where
  "setup_try env st =
     (let st1 = call Call_setBackend st
      in case setBackend_result env of
           Rejects err \<Rightarrow> (st1, Some err)
         | Resolves _ \<Rightarrow>
             (let st2 = call Call_ready st1
              in case ready_result env of
                   Rejects err \<Rightarrow> (st2, Some err)
                 | Resolves _ \<Rightarrow>
                     (let st3 = call Call_createDetector st2
                      in case createDetector_result env of
                           Rejects errCreate \<Rightarrow> setup_legacy env errCreate st3
                         | Resolves created \<Rightarrow>
                             if mounted_after_create env
                             then (st3\<lparr>detector := Some created\<rparr>, None)
                             else if det_has_dispose created
                             then (let st4 = call Call_dispose st3
                                   in case dispose_result env of
                                        Resolves _ \<Rightarrow> (st4, None)
                                      | Rejects errCreate \<Rightarrow> setup_legacy env errCreate st4)
                             else (st3, None))))"

text \<open>The function \<^verbatim>\<open>setup()\<close> of the first effect; its own name is a keyword of Isabelle.\<close>

definition setup_detector :: "SetupEnv \<Rightarrow> State \<Rightarrow> State" where
  "setup_detector env st =
     (case setup_try env st of
        (st', None) \<Rightarrow> st'
      | (st', Some err) \<Rightarrow> console_log (ConsoleError ''Detector setup error:'' (Some err)) st')"

section \<open>Detection\<close>

record Keypoint =
  kp_x :: real
  kp_y :: real
  kp_z :: "real option"

text \<open>
  A prediction (\<^verbatim>\<open>any\<close> in the source): each of the four fields the component
  looks at is an array or is not (\<^verbatim>\<open>Array.isArray\<close>). A keypoint array may hold an
  entry that is \<^verbatim>\<open>null\<close> or \<^verbatim>\<open>undefined\<close>.
\<close>

record Face =
  face_scaledMesh :: "Landmark list option"
  face_mesh :: "Landmark list option"
  face_keypoints :: "Keypoint option list option"
  face_keypoints3D :: "Landmark list option"

text \<open>
  What the environment does during one run of \<^verbatim>\<open>detectOnce()\<close>: the outcome of
  each of the three call shapes of \<^verbatim>\<open>estimateFaces\<close> (\<open>None\<close> is a falsy result),
  and the awaited call, counted from 1, during which the effect's cleanup set
  \<^verbatim>\<open>cancelled = true\<close>, if it did. The flag is never reset.
\<close>

record DetectEnv =
  estimateFaces1 :: "Face list option Outcome"
  estimateFaces2 :: "Face list option Outcome"
  estimateFaces3 :: "Face list option Outcome"
  cancelled_during :: "nat option"

definition cancelled_after :: "DetectEnv \<Rightarrow> nat \<Rightarrow> bool" where
  "cancelled_after env k = (case cancelled_during env of None \<Rightarrow> False | Some c \<Rightarrow> c \<le> k)"

text \<open>
  The three nested \<^verbatim>\<open>try\<close> blocks: \<^verbatim>\<open>predictions\<close>, \<^verbatim>\<open>lastErr\<close> and the
  number of calls awaited.
\<close>

definition estimateCascade ::
  "DetectEnv \<Rightarrow> State \<Rightarrow> (Face list option \<times> Thrown \<times> nat) \<times> State" where
  "estimateCascade env st =
     (let st1 = call (Call_estimateFaces 1) st
      in case estimateFaces1 env of
           Resolves predictions \<Rightarrow> ((predictions, ThrownNull, 1), st1)
         | Rejects e1 \<Rightarrow>
             (let st2 = call (Call_estimateFaces 2) st1
              in case estimateFaces2 env of
                   Resolves predictions \<Rightarrow> ((predictions, e1, 2), st2)
                 | Rejects e2 \<Rightarrow>
                     (let st3 = call (Call_estimateFaces 3) st2
                      in case estimateFaces3 env of
                           Resolves predictions \<Rightarrow> ((predictions, e2, 3), st3)
                         | Rejects e3 \<Rightarrow> ((None, e3, 3), st3))))"

text \<open>\<^verbatim>\<open>keypoints.map(kp => [kp.x, kp.y, kp.z ?? 0])\<close>\<close>

fun keypointsToMesh :: "Keypoint option list \<Rightarrow> Thrown + Landmark list" where
  "keypointsToMesh [] = Inr []"
| "keypointsToMesh (None # kps) = Inl TypeError"
| "keypointsToMesh (Some kp # kps) =
     (case keypointsToMesh kps of
        Inl e \<Rightarrow> Inl e
      | Inr ms \<Rightarrow>
          Inr (\<lparr>lm0 = kp_x kp, lm1 = kp_y kp,
                lm2 = Some (case kp_z kp of None \<Rightarrow> 0 | Some z \<Rightarrow> z)\<rparr> # ms))"

definition extractMesh :: "Face \<Rightarrow> State \<Rightarrow> (Thrown + Landmark list) \<times> State" where
  "extractMesh face st =
     (case face_scaledMesh face of
        Some m \<Rightarrow> (Inr m, st)
      | None \<Rightarrow>
          (case face_mesh face of
             Some m \<Rightarrow> (Inr m, st)
           | None \<Rightarrow>
               (case face_keypoints face of
                  Some kps \<Rightarrow> (keypointsToMesh kps, st)
                | None \<Rightarrow>
                    (case face_keypoints3D face of
                       Some m \<Rightarrow> (Inr m, st)
                     | None \<Rightarrow> (Inr [], console_log (ConsoleWarn ''Unknown prediction shape'' None) st)))))"

definition lipsIndices :: "nat list" where
  "lipsIndices = [13, 14, 78, 308]"

text \<open>
  \<^verbatim>\<open>lipsIndices.map(...).filter(Boolean)\<close>: one marker for each index that has a
  landmark; \<^verbatim>\<open>nanoid()\<close> is only called for those.
\<close>

fun defaultPoints ::
  "(nat \<Rightarrow> string) \<Rightarrow> nat list \<Rightarrow> Landmark list \<Rightarrow> State \<Rightarrow> AnnotationPoint list \<times> State" where
  "defaultPoints gen [] mesh st = ([], st)"
| "defaultPoints gen (i # indices) mesh st =
     (case at_index mesh i of
        None \<Rightarrow> defaultPoints gen indices mesh st
      | Some p \<Rightarrow>
          (let new = \<lparr>ap_id = fst (nanoid gen st), ap_x = lm0 p, ap_y = lm1 p,
                      ap_product = Some '''', ap_dose = Some ''''\<rparr>;
               rest = defaultPoints gen indices mesh (snd (nanoid gen st))
           in (new # fst rest, snd rest)))"

text \<open>
  The body of the \<^verbatim>\<open>try\<close> of \<^verbatim>\<open>detectOnce\<close>. \<open>seen\<close> is the value of
  \<^verbatim>\<open>points\<close> the function closes over: the marker list of the render that started
  the effect. The state is the current one, and \<^verbatim>\<open>setPoints(defaultPoints)\<close>
  replaces its marker list. (The function first draws the image on an off-screen canvas,
  before the first \<^verbatim>\<open>await\<close>; that touches no state and is left out.)
\<close>

definition detectOnce_try ::
  "(nat \<Rightarrow> string) \<Rightarrow> DetectEnv \<Rightarrow> AnnotationPoint list \<Rightarrow> State \<Rightarrow> State \<times> Thrown option" where
  "detectOnce_try gen env seen st =
     (case estimateCascade env st of
        ((predictions, lastErr, k), st1) \<Rightarrow>
          (case predictions of
             None \<Rightarrow>
               (console_log (ConsoleError ''All estimateFaces attempts failed:'' (Some lastErr)) st1,
                Some lastErr)
           | Some preds \<Rightarrow>
               if cancelled_after env k then (st1, None)
               else (case preds of
                       [] \<Rightarrow> (st1\<lparr>landmarks := []\<rparr>, None)
                     | face # _ \<Rightarrow>
                         (case extractMesh face st1 of
                            (Inl e, st2) \<Rightarrow> (st2, Some e)
                          | (Inr mesh, st2) \<Rightarrow>
                              (let st3 = st2\<lparr>landmarks := mesh\<rparr>
                               in if length seen = 0 \<and> length mesh > 0
                                  then (case defaultPoints gen lipsIndices mesh st3 of
                                          (defaultPts, st4) \<Rightarrow> (st4\<lparr>points := defaultPts\<rparr>, None))
                                  else (st3, None))))))"

definition detectOnce ::
  "(nat \<Rightarrow> string) \<Rightarrow> DetectEnv \<Rightarrow> AnnotationPoint list \<Rightarrow> State \<Rightarrow> State" where
  "detectOnce gen env seen st =
     (case detectOnce_try gen env seen st of
        (st', None) \<Rightarrow> st'
      | (st', Some err) \<Rightarrow> console_log (ConsoleError ''detectOnce error:'' (Some err)) st')"

text \<open>
  The detection effect when nothing else happens while it waits: it starts only with a
  detector, an image and a fit, and the list it closes over is the current one.
\<close>

definition detectionEffect :: "(nat \<Rightarrow> string) \<Rightarrow> DetectEnv \<Rightarrow> State \<Rightarrow> State" where
  "detectionEffect gen env st =
     (if detector st = None \<or> \<not> imgEl st \<or> imageFit st = None then st
      else detectOnce gen env (points st) st)"

section \<open>Markers\<close>

text \<open>The handler of the file input: a new file clears the markers, the mesh and the fit.\<close>

definition onFileChange :: "State \<Rightarrow> State" where
  "onFileChange st = st\<lparr>points := [], landmarks := [], imageFit := None\<rparr>"

text \<open>
  \<^verbatim>\<open>image.onload\<close> with the image's natural size; \<^verbatim>\<open>w || DEFAULT_STAGE_WIDTH\<close>
  replaces a width of 0.
\<close>

definition onImageLoad :: "real \<Rightarrow> real \<Rightarrow> State \<Rightarrow> State" where
  "onImageLoad naturalWidth naturalHeight st =
     (let naturalW = (if naturalWidth = 0 then DEFAULT_STAGE_WIDTH else naturalWidth);
          naturalH = (if naturalHeight = 0 then DEFAULT_STAGE_HEIGHT else naturalHeight);
          fit = fitImage naturalW naturalH DEFAULT_STAGE_WIDTH DEFAULT_STAGE_HEIGHT
      in st\<lparr>imgEl := True, imageFit := Some fit, stageSize := fit\<rparr>)"

definition onAddPoint :: "(nat \<Rightarrow> string) \<Rightarrow> State \<Rightarrow> State" where
  "onAddPoint gen st =
     (case nanoid gen st of
        (new_id, st1) \<Rightarrow>
          st1\<lparr>points := points st1 @
            [\<lparr>ap_id = new_id,
              ap_x = (case imageFit st of Some fit \<Rightarrow> width fit | None \<Rightarrow> width (stageSize st)) / 2,
              ap_y = (case imageFit st of Some fit \<Rightarrow> height fit | None \<Rightarrow> height (stageSize st)) / 2,
              ap_product = Some '''', ap_dose = Some ''''\<rparr>]\<rparr>)"

text \<open>
  \<^verbatim>\<open>Partial<Pick<AnnotationPoint, "product" | "dose" | "x" | "y">>\<close>: each key is
  there (\<open>Some\<close>) or not (\<open>None\<close>); a key that is there carries a value of the field's
  type, which for the two labels may itself be \<^verbatim>\<open>undefined\<close>.
\<close>

record PointPatch =
  patch_x :: "real option"
  patch_y :: "real option"
  patch_product :: "string option option"
  patch_dose :: "string option option"

text \<open>The object spread \<^verbatim>\<open>{ ...pt, ...data }\<close>.\<close>

definition spread :: "AnnotationPoint \<Rightarrow> PointPatch \<Rightarrow> AnnotationPoint" where
  "spread pt data =
     \<lparr>ap_id = ap_id pt,
      ap_x = (case patch_x data of None \<Rightarrow> ap_x pt | Some v \<Rightarrow> v),
      ap_y = (case patch_y data of None \<Rightarrow> ap_y pt | Some v \<Rightarrow> v),
      ap_product = (case patch_product data of None \<Rightarrow> ap_product pt | Some v \<Rightarrow> v),
      ap_dose = (case patch_dose data of None \<Rightarrow> ap_dose pt | Some v \<Rightarrow> v)\<rparr>"

definition updatePointMeta :: "string \<Rightarrow> PointPatch \<Rightarrow> State \<Rightarrow> State" where
  "updatePointMeta pid data st =
     st\<lparr>points := map (\<lambda>pt. if ap_id pt = pid then spread pt data else pt) (points st)\<rparr>"

definition removePoint :: "string \<Rightarrow> State \<Rightarrow> State" where
  "removePoint pid st = st\<lparr>points := filter (\<lambda>p. ap_id p \<noteq> pid) (points st)\<rparr>"

subsection \<open>Snapping a marker to the nearest landmark\<close>

record Best =
  best_idx :: nat
  best_dist :: real

text \<open>The \<^verbatim>\<open>for\<close> loop over the mesh; \<open>best\<close> is \<^verbatim>\<open>null\<close> until a landmark is in reach.\<close>

function snap_loop ::
  "Landmark list \<Rightarrow> AnnotationPoint \<Rightarrow> real \<Rightarrow> nat \<Rightarrow> Best option \<Rightarrow> Best option" where
  "snap_loop lms pt radius i best =
     (if i < length lms
      then (case at_index lms i of
              None \<Rightarrow> snap_loop lms pt radius (i + 1) best
            | Some lm \<Rightarrow>
                (let dx = lm0 lm - ap_x pt;
                     dy = lm1 lm - ap_y pt;
                     d = Math_hypot dx dy
                 in snap_loop lms pt radius (i + 1)
                      (if d \<le> radius \<and> (case best of None \<Rightarrow> True | Some b \<Rightarrow> d < best_dist b)
                       then Some \<lparr>best_idx = i, best_dist = d\<rparr>
                       else best)))
      else best)"
  by pat_completeness auto
termination
  by (relation "measure (\<lambda>(lms, pt, radius, i, best). length lms - i)") auto

declare snap_loop.simps [simp del]

text \<open>
  \<^verbatim>\<open>snapPointToNearestLandmark(id, radius = 12)\<close>: \<open>None\<close> for the radius is the
  call without the argument. Reading \<^verbatim>\<open>lm[0]\<close> of a landmark that is not there
  would throw.
\<close>

definition radius_or_default :: "real option \<Rightarrow> real" where
  "radius_or_default radius_arg = (case radius_arg of None \<Rightarrow> 12 | Some r \<Rightarrow> r)"

definition snapPointToNearestLandmark :: "string \<Rightarrow> real option \<Rightarrow> State \<Rightarrow> Thrown + State" where
  "snapPointToNearestLandmark pid radius_arg st =
     (let radius = radius_or_default radius_arg
      in case find (\<lambda>p. ap_id p = pid) (points st) of
           None \<Rightarrow> Inr st
         | Some pt \<Rightarrow>
             if length (landmarks st) = 0 then Inr st
             else (case snap_loop (landmarks st) pt radius 0 None of
                     None \<Rightarrow> Inr st
                   | Some best \<Rightarrow>
                       (case at_index (landmarks st) (best_idx best) of
                          None \<Rightarrow> Inl TypeError
                        | Some lm \<Rightarrow>
                            Inr (updatePointMeta pid
                                   \<lparr>patch_x = Some (lm0 lm), patch_y = Some (lm1 lm),
                                    patch_product = None, patch_dose = None\<rparr> st))))"

section \<open>Reference lines\<close>

text \<open>
  The bounding box loops start from \<^verbatim>\<open>Infinity\<close> and \<^verbatim>\<open>-Infinity\<close>; \<open>None\<close>
  stands for a bound that is still infinite, which every number replaces.
\<close>

definition lower :: "real option \<Rightarrow> real \<Rightarrow> real option" where
  "lower bound v = (case bound of None \<Rightarrow> Some v | Some b \<Rightarrow> if v < b then Some v else Some b)"

definition upper :: "real option \<Rightarrow> real \<Rightarrow> real option" where
  "upper bound v = (case bound of None \<Rightarrow> Some v | Some b \<Rightarrow> if v > b then Some v else Some b)"

record Bounds =
  minX :: "real option"
  maxX :: "real option"
  minY :: "real option"
  maxY :: "real option"

fun bounds_loop :: "Landmark list \<Rightarrow> Bounds \<Rightarrow> Bounds" where
  "bounds_loop [] bs = bs"
| "bounds_loop (lm # lms) bs =
     bounds_loop lms
       \<lparr>minX = lower (minX bs) (lm0 lm), maxX = upper (maxX bs) (lm0 lm),
        minY = lower (minY bs) (lm1 lm), maxY = upper (maxY bs) (lm1 lm)\<rparr>"

definition unbounded :: Bounds where
  "unbounded = \<lparr>minX = None, maxX = None, minY = None, maxY = None\<rparr>"

text \<open>
  The midline runs from landmark 10 to landmark 152 when the mesh has them, and
  otherwise down the middle of the bounding box of the mesh. (With a mesh that is not
  empty the four bounds are numbers, so the last case is never taken.)
\<close>

definition midline_fallback :: "Landmark list \<Rightarrow> (XY \<times> XY) option" where
  "midline_fallback lms =
     (if length lms = 0 then None
      else (let bs = bounds_loop lms unbounded
            in case (minX bs, maxX bs, minY bs, maxY bs) of
                 (Some xmin, Some xmax, Some ymin, Some ymax) \<Rightarrow>
                   (let cx = (xmin + xmax) / 2
                    in Some (\<lparr>px = cx, py = ymin\<rparr>, \<lparr>px = cx, py = ymax\<rparr>))
               | _ \<Rightarrow> None))"

definition midlineEndpoints :: "Landmark list \<Rightarrow> (XY \<times> XY) option" where
  "midlineEndpoints lms =
     (if length lms > 152
      then (case (at_index lms 10, at_index lms 152) of
              (Some l10, Some l152) \<Rightarrow>
                Some (\<lparr>px = lm0 l10, py = lm1 l10\<rparr>, \<lparr>px = lm0 l152, py = lm1 l152\<rparr>)
            | _ \<Rightarrow> midline_fallback lms)
      else midline_fallback lms)"

definition eyeLine :: "Landmark list \<Rightarrow> (XY \<times> XY) option" where
  "eyeLine lms =
     (if length lms > 263
      then (case (at_index lms 33, at_index lms 263) of
              (Some l33, Some l263) \<Rightarrow>
                Some (\<lparr>px = lm0 l33, py = lm1 l33\<rparr>, \<lparr>px = lm0 l263, py = lm1 l263\<rparr>)
            | _ \<Rightarrow> None)
      else None)"

record Thirds =
  thirds_y1 :: real
  thirds_y2 :: real
  thirds_xmin :: real
  thirds_xmax :: real

text \<open>
  The horizontal thirds of the bounding box; \<^verbatim>\<open>null\<close> when the mesh is empty or the
  box has no height (a height that is not finite is a bound that is still infinite).
\<close>

definition thirdsYs :: "Landmark list \<Rightarrow> Thirds option" where
  "thirdsYs lms =
     (if length lms = 0 then None
      else (let bs = bounds_loop lms unbounded
            in case (minX bs, maxX bs, minY bs, maxY bs) of
                 (Some xmin, Some xmax, Some ymin, Some ymax) \<Rightarrow>
                   (let h = ymax - ymin
                    in if h \<le> 0 then None
                       else Some \<lparr>thirds_y1 = ymin + h / 3, thirds_y2 = ymin + (2 * h) / 3,
                                  thirds_xmin = xmin, thirds_xmax = xmax\<rparr>)
               | _ \<Rightarrow> None))"

section \<open>Presets\<close>

datatype PresetName = lips | nasolabial | marionette

fun presetTemplates :: "PresetName \<Rightarrow> nat list" where
  "presetTemplates lips = [13, 14, 78, 308]"
| "presetTemplates nasolabial = [50, 280, 146, 376]"
| "presetTemplates marionette = [57, 287, 164, 393]"

text \<open>\<^verbatim>\<open>[-1, 0, 1, 2].map(...)\<close> of the preset without a mesh.\<close>

fun fallbackPoints ::
  "(nat \<Rightarrow> string) \<Rightarrow> real \<Rightarrow> real \<Rightarrow> real list \<Rightarrow> State \<Rightarrow> AnnotationPoint list \<times> State" where
  "fallbackPoints gen cx cy [] st = ([], st)"
| "fallbackPoints gen cx cy (i # rest) st =
     (let new = \<lparr>ap_id = fst (nanoid gen st), ap_x = cx + (i - 1.5) * 12, ap_y = cy + (i - 1.5) * 10,
                 ap_product = Some '''', ap_dose = Some ''''\<rparr>;
          more = fallbackPoints gen cx cy rest (snd (nanoid gen st))
      in (new # fst more, snd more))"

text \<open>
  One round of the loop over the preset's indices makes one marker: at the landmark of
  the index, or beside the midline on a thirds line, or beside the middle of the stage.
  \<open>newPts\<close> is the array built so far.
\<close>

definition presetPoint ::
  "(nat \<Rightarrow> string) \<Rightarrow> nat \<Rightarrow> AnnotationPoint list \<Rightarrow> State \<Rightarrow> AnnotationPoint" where
  "presetPoint gen idx newPts st =
     (let new_id = fst (nanoid gen st)
      in case at_index (landmarks st) idx of
           Some lm \<Rightarrow>
             \<lparr>ap_id = new_id, ap_x = lm0 lm, ap_y = lm1 lm,
              ap_product = Some '''', ap_dose = Some ''''\<rparr>
         | None \<Rightarrow>
             (case (midlineEndpoints (landmarks st), thirdsYs (landmarks st)) of
                (Some (a, b), Some thirds) \<Rightarrow>
                  (let cx = (px a + px b) / 2;
                       dx = (if length newPts mod 2 = 0 then - 12 else 12);
                       y = (if length newPts < 2 then thirds_y1 thirds else thirds_y2 thirds)
                   in \<lparr>ap_id = new_id, ap_x = cx + dx, ap_y = y,
                       ap_product = Some '''', ap_dose = Some ''''\<rparr>)
              | _ \<Rightarrow>
                  \<lparr>ap_id = new_id,
                   ap_x = width (stageSize st) / 2 + (real (length newPts) - 1) * 10,
                   ap_y = height (stageSize st) / 2,
                   ap_product = Some '''', ap_dose = Some ''''\<rparr>))"

fun addPreset_loop ::
  "(nat \<Rightarrow> string) \<Rightarrow> nat list \<Rightarrow> AnnotationPoint list \<Rightarrow> State \<Rightarrow> AnnotationPoint list \<times> State" where
  "addPreset_loop gen [] newPts st = (newPts, st)"
| "addPreset_loop gen (idx # indices) newPts st =
     addPreset_loop gen indices (newPts @ [presetPoint gen idx newPts st]) (snd (nanoid gen st))"

definition addPreset :: "(nat \<Rightarrow> string) \<Rightarrow> PresetName \<Rightarrow> State \<Rightarrow> State" where
  "addPreset gen name st =
     (let tpl = presetTemplates name
      in if length (landmarks st) = 0
         then (case fallbackPoints gen (width (stageSize st) / 2) (height (stageSize st) / 2)
                      [- 1, 0, 1, 2] st of
                 (fallbackPts, st1) \<Rightarrow> st1\<lparr>points := points st1 @ fallbackPts\<rparr>)
         else (case addPreset_loop gen tpl [] st of
                 (newPts, st1) \<Rightarrow> st1\<lparr>points := points st1 @ newPts\<rparr>))"

section \<open>Muscle and vessel overlays\<close>

record MuscleDef =
  muscle_id :: string
  muscle_label :: string
  boundary :: "nat list"
  centerline :: "nat list option"
  color :: string

definition muscleDefs :: "MuscleDef list" where
  "muscleDefs =
     [\<lparr>muscle_id = ''orbicularis_oris'', muscle_label = ''Orbicularis Oris'',
       boundary = [61, 146, 91, 181, 84, 17, 314, 405, 321, 375, 291, 61],
       centerline = Some [13, 78, 14], color = ''#b4006a''\<rparr>,
      \<lparr>muscle_id = ''zygomaticus_major_l'', muscle_label = ''Zygomaticus Major (L)'',
       boundary = [61, 226, 354, 334, 293],
       centerline = Some [61, 226, 345], color = ''#9b2a8a''\<rparr>,
      \<lparr>muscle_id = ''zygomaticus_major_r'', muscle_label = ''Zygomaticus Major (R)'',
       boundary = [291, 446, 323, 361, 291],
       centerline = Some [291, 446, 323], color = ''#9b2a8a''\<rparr>,
      \<lparr>muscle_id = ''mentalis'', muscle_label = ''Mentalis'',
       boundary = [152, 148, 176, 149, 150, 152],
       centerline = Some [152, 148, 176], color = ''#7f2266''\<rparr>]"

record MuscleShape =
  shape_def :: MuscleDef
  boundaryPts :: "XY list"
  centerPts :: "XY list option"

text \<open>One step of the \<^verbatim>\<open>map\<close>: \<^verbatim>\<open>null\<close> when the boundary has a missing landmark.\<close>

definition muscleShape :: "Landmark list \<Rightarrow> MuscleDef \<Rightarrow> MuscleShape option" where
  "muscleShape lms m =
     (case indicesToXY (boundary m) lms of
        None \<Rightarrow> None
      | Some bpts \<Rightarrow>
          Some \<lparr>shape_def = m, boundaryPts = bpts,
                centerPts = (case centerline m of
                               Some c \<Rightarrow> indicesToXY c lms
                             | None \<Rightarrow> None)\<rparr>)"

definition musclesToRender :: "Landmark list \<Rightarrow> MuscleShape list" where
  "musclesToRender lms = List.map_filter (muscleShape lms) muscleDefs"

record VesselDef =
  vessel_id :: string
  vessel_label :: string
  vessel_indices :: "nat list"

definition vesselDefs :: "VesselDef list" where
  "vesselDefs =
     [\<lparr>vessel_id = ''facial_artery_l'', vessel_label = ''Facial artery (L)'',
       vessel_indices = [234, 93, 132, 58, 0, 1, 2]\<rparr>,
      \<lparr>vessel_id = ''facial_artery_r'', vessel_label = ''Facial artery (R)'',
       vessel_indices = [454, 323, 361, 288, 267, 266, 265]\<rparr>,
      \<lparr>vessel_id = ''angular_l'', vessel_label = ''Angular (L)'',
       vessel_indices = [2, 98, 4, 5]\<rparr>,
      \<lparr>vessel_id = ''angular_r'', vessel_label = ''Angular (R)'',
       vessel_indices = [265, 362, 257, 256]\<rparr>,
      \<lparr>vessel_id = ''sup_labial'', vessel_label = ''Superior labial'',
       vessel_indices = [61, 62, 63, 64, 65, 66]\<rparr>,
      \<lparr>vessel_id = ''inf_labial'', vessel_label = ''Inferior labial'',
       vessel_indices = [291, 292, 293, 294, 295, 296]\<rparr>]"

record VesselShape =
  vshape_def :: VesselDef
  vessel_pts :: "XY list"

definition vesselShape :: "Landmark list \<Rightarrow> VesselDef \<Rightarrow> VesselShape option" where
  "vesselShape lms v =
     (case indicesToXY (vessel_indices v) lms of
        None \<Rightarrow> None
      | Some pts \<Rightarrow> Some \<lparr>vshape_def = v, vessel_pts = pts\<rparr>)"

definition vesselShapes :: "Landmark list \<Rightarrow> VesselShape list" where
  "vesselShapes lms = List.map_filter (vesselShape lms) vesselDefs"

section \<open>Drawing\<close>

text \<open>
  The canvas elements of the overlays, with their geometry only (colours, widths and
  dashes are constants of the source).
\<close>

datatype Primitive = Line "real list" | Text string real real

text \<open>The fibre strokes of one muscle, \<open>i\<close> counting the samples.\<close>

fun fibres :: "Sample list \<Rightarrow> nat \<Rightarrow> Primitive list" where
  "fibres [] i = []"
| "fibres (fs # rest) i =
     (let len = 8 + real (i mod 3);
          x1 = sx fs - nx fs * (len / 2);
          y1 = sy fs - ny fs * (len / 2);
          x2 = sx fs + nx fs * (len / 2);
          y2 = sy fs + ny fs * (len / 2)
      in Line [x1, y1, x2, y2] # fibres rest (i + 1))"

definition draw_muscle :: "MuscleShape \<Rightarrow> Thrown + Primitive list" where
  "draw_muscle m =
     (let flat = flattenPts (boundaryPts m);
          fiberBasePts = (case centerPts m of Some c \<Rightarrow> c | None \<Rightarrow> boundaryPts m)
      in case samplesAlong fiberBasePts 12 of
           Inl e \<Rightarrow> Inl e
         | Inr fibreSamples \<Rightarrow> Inr ([Line flat, Line flat] @ fibres fibreSamples 0))"

fun draw_all :: "('a \<Rightarrow> Thrown + Primitive list) \<Rightarrow> 'a list \<Rightarrow> Thrown + Primitive list" where
  "draw_all draw [] = Inr []"
| "draw_all draw (v # rest) =
     (case draw v of
        Inl e \<Rightarrow> Inl e
      | Inr ps \<Rightarrow> (case draw_all draw rest of Inl e \<Rightarrow> Inl e | Inr qs \<Rightarrow> Inr (ps @ qs)))"

definition draw_muscles :: "bool \<Rightarrow> Landmark list \<Rightarrow> Thrown + Primitive list" where
  "draw_muscles showMuscles lms =
     (if showMuscles then draw_all draw_muscle (musclesToRender lms) else Inr [])"

definition draw_vessel :: "VesselShape \<Rightarrow> Thrown + Primitive list" where
  "draw_vessel v =
     (case at_index (vessel_pts v) 0 of
        None \<Rightarrow> Inl TypeError
      | Some p0 \<Rightarrow>
          Inr [Line (flattenPts (vessel_pts v)),
               Text (vessel_label (vshape_def v)) (px p0 + 6) (py p0 - 12)])"

definition draw_vessels :: "bool \<Rightarrow> Landmark list \<Rightarrow> Thrown + Primitive list" where
  "draw_vessels showVessels lms =
     (if showVessels then draw_all draw_vessel (vesselShapes lms) else Inr [])"

definition draw_midline :: "bool \<Rightarrow> Landmark list \<Rightarrow> Primitive list" where
  "draw_midline showMidline lms =
     (case (showMidline, midlineEndpoints lms) of
        (True, Some (a, b)) \<Rightarrow>
          [Line [px a, py a, px b, py b],
           Text ''Midline'' ((px a + px b) / 2 + 6) ((py a + py b) / 2 + 6)]
      | _ \<Rightarrow> [])"

definition draw_eyeLine :: "bool \<Rightarrow> Landmark list \<Rightarrow> Primitive list" where
  "draw_eyeLine showEyeLine lms =
     (case (showEyeLine, eyeLine lms) of
        (True, Some (l, r)) \<Rightarrow>
          [Line [px l, py l, px r, py r],
           Text ''Eye-line'' ((px l + px r) / 2 + 6) ((py l + py r) / 2 - 16)]
      | _ \<Rightarrow> [])"

definition draw_thirds :: "bool \<Rightarrow> Landmark list \<Rightarrow> Primitive list" where
  "draw_thirds showThirds lms =
     (case (showThirds, thirdsYs lms) of
        (True, Some t) \<Rightarrow>
          [Line [thirds_xmin t, thirds_y1 t, thirds_xmax t, thirds_y1 t],
           Text ''1/3'' (thirds_xmax t + 6) (thirds_y1 t - 6),
           Line [thirds_xmin t, thirds_y2 t, thirds_xmax t, thirds_y2 t],
           Text ''2/3'' (thirds_xmax t + 6) (thirds_y2 t - 6)]
      | _ \<Rightarrow> [])"

section \<open>Sequences of operations\<close>

text \<open>
  What can happen to the marker list: the buttons and inputs of the component, the end
  of an image load, and a finished run of the detection with the marker list it had
  closed over. An exception that escapes an event handler leaves the state as it was.
\<close>

datatype Operation =
    ManualAdd
  | PresetAdd PresetName
  | Detection DetectEnv "AnnotationPoint list"
  | UpdateMeta string PointPatch
  | Snap string "real option"
  | Remove string
  | NewFile
  | ImageLoaded real real
  | DetectorSetup SetupEnv

fun perform :: "(nat \<Rightarrow> string) \<Rightarrow> Operation \<Rightarrow> State \<Rightarrow> State" where
  "perform gen ManualAdd st = onAddPoint gen st"
| "perform gen (PresetAdd name) st = addPreset gen name st"
| "perform gen (Detection env seen) st = detectOnce gen env seen st"
| "perform gen (UpdateMeta pid data) st = updatePointMeta pid data st"
| "perform gen (Snap pid radius) st =
     (case snapPointToNearestLandmark pid radius st of Inl e \<Rightarrow> st | Inr st' \<Rightarrow> st')"
| "perform gen (Remove pid) st = removePoint pid st"
| "perform gen NewFile st = onFileChange st"
| "perform gen (ImageLoaded w h) st = onImageLoad w h st"
| "perform gen (DetectorSetup env) st = setup_detector env st"

fun run :: "(nat \<Rightarrow> string) \<Rightarrow> Operation list \<Rightarrow> State \<Rightarrow> State" where
  "run gen [] st = st"
| "run gen (operation # rest) st = run gen rest (perform gen operation st)"

section \<open>Notions the properties are stated with\<close>

text \<open>The length of the \<open>k\<close>-th segment of a polyline, the list of them, and their sum.\<close>

definition seg_len :: "XY list \<Rightarrow> nat \<Rightarrow> real" where
  "seg_len pts k =
     Math_hypot (px (pts ! (k + 1)) - px (pts ! k)) (py (pts ! (k + 1)) - py (pts ! k))"

definition seg_lens :: "XY list \<Rightarrow> real list" where
  "seg_lens pts = map (seg_len pts) [0..<length pts - 1]"

definition polyline_length :: "XY list \<Rightarrow> real" where
  "polyline_length pts = sum_list (seg_lens pts)"

text \<open>The index of the segment that \<^verbatim>\<open>samplesAlong\<close> reads for the sample \<open>s\<close> of \<open>n\<close>.\<close>

definition segment_index :: "XY list \<Rightarrow> nat \<Rightarrow> nat \<Rightarrow> nat" where
  "segment_index pts n s = snd (locate (seg_lens pts) (sample_t (polyline_length pts) n s))"

text \<open>The distance of a landmark from a marker, as the snapping measures it.\<close>

definition lm_dist :: "AnnotationPoint \<Rightarrow> Landmark \<Rightarrow> real" where
  "lm_dist pt lm = Math_hypot (lm0 lm - ap_x pt) (lm1 lm - ap_y pt)"

text \<open>The update a snap makes: the two coordinates of the landmark, no label.\<close>

definition snap_patch :: "Landmark \<Rightarrow> PointPatch" where
  "snap_patch lm = \<lparr>patch_x = Some (lm0 lm), patch_y = Some (lm1 lm),
                     patch_product = None, patch_dose = None\<rparr>"

text \<open>
  The invariant of the marker list: the identifiers are pairwise distinct, and each one
  was handed out by an earlier call of \<^verbatim>\<open>nanoid()\<close>.
\<close>

definition ids_issued :: "(nat \<Rightarrow> string) \<Rightarrow> State \<Rightarrow> bool" where
  "ids_issued gen st \<longleftrightarrow>
     distinct (map ap_id (points st))
     \<and> set (map ap_id (points st)) \<subseteq> gen ` {..<nanoid_calls st}"

text \<open>
  Two states with the same \<^verbatim>\<open>useState\<close> cells (and the same count of identifiers):
  they differ at most in what was written to the console and in the calls made.
\<close>

definition same_cells :: "State \<Rightarrow> State \<Rightarrow> bool" where
  "same_cells st st' \<longleftrightarrow>
     landmarks st' = landmarks st \<and> points st' = points st \<and> detector st' = detector st
     \<and> imgEl st' = imgEl st \<and> imageFit st' = imageFit st \<and> stageSize st' = stageSize st
     \<and> nanoid_calls st' = nanoid_calls st"

text \<open>The number of calls of \<^verbatim>\<open>estimateFaces\<close> a run awaits: it stops at the first that resolves.\<close>

definition awaited :: "DetectEnv \<Rightarrow> nat" where
  "awaited env =
     (case estimateFaces1 env of
        Resolves _ \<Rightarrow> 1
      | Rejects _ \<Rightarrow> (case estimateFaces2 env of Resolves _ \<Rightarrow> 2 | Rejects _ \<Rightarrow> 3))"

text \<open>
  The calls a run of the detector set-up makes once the backend is ready: the legacy
  \<^verbatim>\<open>load()\<close> after a \<^verbatim>\<open>createDetector\<close> that rejects, and the \<^verbatim>\<open>dispose()\<close> of
  a detector that arrives after the unmount.
\<close>

definition calls_after_create :: "SetupEnv \<Rightarrow> Call list" where
  "calls_after_create env =
     (case createDetector_result env of
        Rejects _ \<Rightarrow> [Call_load]
      | Resolves created \<Rightarrow>
          if \<not> mounted_after_create env \<and> det_has_dispose created then [Call_dispose] else [])"

text \<open>The markers the detection puts on the indices that the mesh has.\<close>

definition marker_at :: "string \<Rightarrow> Landmark \<Rightarrow> AnnotationPoint" where
  "marker_at new_id lm =
     \<lparr>ap_id = new_id, ap_x = lm0 lm, ap_y = lm1 lm, ap_product = Some '''', ap_dose = Some ''''\<rparr>"

section \<open>States the examples use\<close>

text \<open>Two markers on a horizontal line, and a mesh of three landmarks on the same line.\<close>

definition example_state :: State where
  "example_state =
     initial_state
       \<lparr>landmarks := [\<lparr>lm0 = 3, lm1 = 0, lm2 = None\<rparr>, \<lparr>lm0 = 1, lm1 = 0, lm2 = None\<rparr>,
                      \<lparr>lm0 = 50, lm1 = 0, lm2 = None\<rparr>],
        points := [\<lparr>ap_id = ''a'', ap_x = 0, ap_y = 0, ap_product = Some ''filler'', ap_dose = Some ''''\<rparr>,
                   \<lparr>ap_id = ''b'', ap_x = 100, ap_y = 0, ap_product = Some '''', ap_dose = Some ''''\<rparr>]\<rparr>"

text \<open>A drag of a marker to the position (5, 6).\<close>

definition example_drag :: PointPatch where
  "example_drag = \<lparr>patch_x = Some 5, patch_y = Some 6, patch_product = None, patch_dose = None\<rparr>"

text \<open>An identifier generator that never repeats: the \<open>k\<close>-th identifier is \<open>k\<close> letters long.\<close>

definition example_gen :: "nat \<Rightarrow> string" where
  "example_gen k = replicate k CHR ''i''"

text \<open>A detector, and set-up runs: the first attempt fails and the legacy one succeeds;
  the first attempt succeeds after the component was unmounted; both attempts fail.\<close>

definition example_detector :: Detector where
  "example_detector = \<lparr>det_name = ''facemesh'', det_has_dispose = True\<rparr>"

definition legacy_setup_env :: SetupEnv where
  "legacy_setup_env =
     \<lparr>setBackend_result = Resolves (), ready_result = Resolves (),
      createDetector_result = Rejects (LibError ''no tfjs runtime''),
      mounted_after_create = True, dispose_result = Resolves (),
      load_result = Resolves example_detector, mounted_after_load = True\<rparr>"

definition unmounted_setup_env :: SetupEnv where
  "unmounted_setup_env =
     \<lparr>setBackend_result = Resolves (), ready_result = Resolves (),
      createDetector_result = Resolves example_detector,
      mounted_after_create = False, dispose_result = Resolves (),
      load_result = Resolves example_detector, mounted_after_load = False\<rparr>"

definition failing_setup_env :: SetupEnv where
  "failing_setup_env =
     \<lparr>setBackend_result = Resolves (), ready_result = Resolves (),
      createDetector_result = Rejects (LibError ''no tfjs runtime''),
      mounted_after_create = True, dispose_result = Resolves (),
      load_result = Rejects (LibError ''no legacy package''), mounted_after_load = True\<rparr>"

text \<open>A face with a mesh of twenty landmarks, the \<open>k\<close>-th at \<open>(k, 2 k)\<close>.\<close>

definition example_mesh :: "Landmark list" where
  "example_mesh = map (\<lambda>k. \<lparr>lm0 = real k, lm1 = 2 * real k, lm2 = None\<rparr>) [0..<20]"

definition example_face :: Face where
  "example_face =
     \<lparr>face_scaledMesh = Some example_mesh, face_mesh = None, face_keypoints = None,
      face_keypoints3D = None\<rparr>"

text \<open>Detection runs: the first call shape succeeds; all three fail; the first fails
  while the effect is cancelled and the second succeeds.\<close>

definition good_detect_env :: DetectEnv where
  "good_detect_env =
     \<lparr>estimateFaces1 = Resolves (Some [example_face]),
      estimateFaces2 = Rejects (LibError ''unused''),
      estimateFaces3 = Rejects (LibError ''unused''),
      cancelled_during = None\<rparr>"

definition failing_detect_env :: DetectEnv where
  "failing_detect_env =
     \<lparr>estimateFaces1 = Rejects (LibError ''shape 1''),
      estimateFaces2 = Rejects (LibError ''shape 2''),
      estimateFaces3 = Rejects (LibError ''shape 3''),
      cancelled_during = None\<rparr>"

definition cancelled_detect_env :: DetectEnv where
  "cancelled_detect_env =
     \<lparr>estimateFaces1 = Rejects (LibError ''shape 1''),
      estimateFaces2 = Resolves (Some [example_face]),
      estimateFaces3 = Rejects (LibError ''unused''),
      cancelled_during = Some 1\<rparr>"

text \<open>A prediction whose keypoint array holds a \<^verbatim>\<open>null\<close>, and the run that gets it.\<close>

definition broken_face :: Face where
  "broken_face =
     \<lparr>face_scaledMesh = None, face_mesh = None,
      face_keypoints = Some [Some \<lparr>kp_x = 1, kp_y = 2, kp_z = None\<rparr>, None],
      face_keypoints3D = None\<rparr>"

definition broken_detect_env :: DetectEnv where
  "broken_detect_env =
     \<lparr>estimateFaces1 = Resolves (Some [broken_face]),
      estimateFaces2 = Rejects (LibError ''unused''),
      estimateFaces3 = Rejects (LibError ''unused''),
      cancelled_during = None\<rparr>"

text \<open>A mesh of two landmarks, and one of 478 (what the model gives with refined
  landmarks), the \<open>k\<close>-th at \<open>(k, 2 k)\<close>.\<close>

definition two_landmarks :: "Landmark list" where
  "two_landmarks = [\<lparr>lm0 = 0, lm1 = 0, lm2 = None\<rparr>, \<lparr>lm0 = 10, lm1 = 20, lm2 = None\<rparr>]"

definition full_mesh :: "Landmark list" where
  "full_mesh = map (\<lambda>k. \<lparr>lm0 = real k, lm1 = 2 * real k, lm2 = None\<rparr>) [0..<478]"

text \<open>A partly complete mesh: the first 200 landmarks of it.\<close>

definition partial_mesh :: "Landmark list" where
  "partial_mesh = map (\<lambda>k. \<lparr>lm0 = real k, lm1 = 2 * real k, lm2 = None\<rparr>) [0..<200]"

section \<open>Properties of the image fit\<close>

subsection \<open>The error of one rounding\<close>

text \<open>The exponent brackets its argument between two powers of 2.\<close>

lemma expo_bounds:
  assumes "0 < x"
  shows "2 powi expo x \<le> x \<and> x < 2 powi (expo x + 1)"
proof (cases "1 \<le> x")
  case True
  define n where "n = nat \<lfloor>x\<rfloor>"
  define k where "k = floorlog 2 n"
  have fl: "1 \<le> \<lfloor>x\<rfloor>" using True by linarith
  then have rn: "real n = of_int \<lfloor>x\<rfloor>" unfolding n_def by simp
  have n: "0 < n" "real n \<le> x" "x < real n + 1"
  proof -
    show "0 < n" using fl unfolding n_def by simp
    show "real n \<le> x" unfolding rn by linarith
    show "x < real n + 1" unfolding rn by linarith
  qed
  have b: "2 ^ (k - 1) \<le> n \<and> n < 2 ^ k"
    unfolding k_def using floorlog_bounds [of n 2] n(1) by simp
  have k: "0 < k" using b n(1) by (cases k) auto
  have e: "expo x = int (k - 1)"
    using True k by (simp add: expo_def n_def k_def)
  have e1: "expo x + 1 = int k" using e k by simp
  have "(2::real) ^ (k - 1) \<le> real n" using b by (metis of_nat_le_iff of_nat_numeral of_nat_power)
  moreover have "real n + 1 \<le> 2 ^ k"
  proof -
    have "n + 1 \<le> 2 ^ k" using b by simp
    then have "real (n + 1) \<le> real (2 ^ k)" by (simp only: of_nat_le_iff)
    then show ?thesis by simp
  qed
  ultimately show ?thesis
    unfolding e1 unfolding e using n by (simp only: power_int_of_nat) linarith
next
  case False
  define m where "m = nat (\<lceil>1 / x\<rceil> - 1)"
  define k where "k = floorlog 2 m"
  have x1: "1 < 1 / x" using False assms by simp
  then have c: "2 \<le> \<lceil>1 / x\<rceil>" by linarith
  have c1: "0 \<le> \<lceil>1 / x\<rceil> - 1" using c by linarith
  have "real m = of_int (\<lceil>1 / x\<rceil> - 1)"
    unfolding m_def using c1 by (simp only: of_nat_nat)
  then have rm: "real m = of_int \<lceil>1 / x\<rceil> - 1" by (simp only: of_int_diff of_int_1)
  have m: "0 < m" "real m < 1 / x" "1 / x \<le> real m + 1"
  proof -
    show "0 < m" using c unfolding m_def by linarith
    show "real m < 1 / x" unfolding rm by linarith
    show "1 / x \<le> real m + 1" unfolding rm by linarith
  qed
  have b: "2 ^ (k - 1) \<le> m \<and> m < 2 ^ k"
    unfolding k_def using floorlog_bounds [of m 2] m(1) by simp
  have k: "0 < k" using b m(1) by (cases k) auto
  have e: "expo x = - int k"
    using False by (simp add: expo_def m_def k_def)
  have e1: "expo x + 1 = - int (k - 1)" using e k by simp
  have lo: "(2::real) ^ (k - 1) \<le> real m" using b by (metis of_nat_le_iff of_nat_numeral of_nat_power)
  have hi: "real m + 1 \<le> 2 ^ k"
  proof -
    have "m + 1 \<le> 2 ^ k" using b by simp
    then have "real (m + 1) \<le> real (2 ^ k)" by (simp only: of_nat_le_iff)
    then show ?thesis by simp
  qed
  have A: "1 / x \<le> 2 ^ k" using hi m(3) by linarith
  have B: "(2::real) ^ (k - 1) < 1 / x" using lo m(2) by linarith
  have "1 / 2 ^ k \<le> x"
    using A assms by (simp add: field_simps)
  moreover have "x < 1 / 2 ^ (k - 1)"
    using B assms by (simp add: field_simps)
  ultimately show ?thesis
    unfolding e1 unfolding e
    by (simp only: power_int_minus power_int_of_nat) (simp add: field_simps)
qed

lemma rne_error: "\<bar>of_int (rne v) - v\<bar> \<le> 1 / 2"
  unfolding rne_def Let_def by (auto; linarith)

text \<open>
  Rounding a positive number to the double format moves it by at most the fraction
  \<open>2\<^sup>-\<^sup>5\<^sup>3\<close> of itself.
\<close>

lemma binary64_error:
  assumes "0 < x"
  shows "\<bar>binary64 x - x\<bar> \<le> x / 2 ^ 53"
proof -
  define e where "e = expo x"
  define s :: real where "s = 2 powi (52 - e)"
  define m where "m = rne (x * s)"
  have s: "0 < s" unfolding s_def by (simp add: zero_less_power_int)
  have inv: "2 powi (e - 52) = 1 / s"
    unfolding s_def by (simp add: power_int_diff field_simps)
  have b: "binary64 x = of_int m / s"
    using assms by (simp add: binary64_def Let_def e_def [symmetric] s_def [symmetric] m_def [symmetric] inv)
  have "\<bar>of_int m - x * s\<bar> \<le> 1 / 2" unfolding m_def by (rule rne_error)
  then have "\<bar>of_int m - x * s\<bar> / s \<le> (1 / 2) / s"
    using s by (intro divide_right_mono) simp_all
  moreover have "\<bar>of_int m - x * s\<bar> / s = \<bar>of_int m / s - x\<bar>"
  proof -
    have "of_int m / s - x = (of_int m - x * s) / s" using s by (simp add: field_simps)
    then show ?thesis using s by (simp add: abs_divide)
  qed
  ultimately have 1: "\<bar>binary64 x - x\<bar> \<le> (1 / 2) / s" using b by simp
  have "(1 / 2) / s = 2 powi e / 2 ^ 53"
    unfolding s_def by (simp add: power_int_diff field_simps)
  moreover have "2 powi e \<le> x" using expo_bounds [OF assms] by (simp add: e_def)
  ultimately have "(1 / 2) / s \<le> x / 2 ^ 53" by (simp add: divide_right_mono)
  with 1 show ?thesis by linarith
qed

lemma binary64_bounds:
  assumes "0 < x"
  shows "x * (1 - 1 / 2 ^ 53) \<le> binary64 x \<and> binary64 x \<le> x * (1 + 1 / 2 ^ 53)"
proof -
  have "\<bar>binary64 x - x\<bar> \<le> x / 2 ^ 53" using assms by (rule binary64_error)
  then have "binary64 x - x \<le> x / 2 ^ 53" and "x - binary64 x \<le> x / 2 ^ 53" by linarith+
  then show ?thesis by (simp add: algebra_simps)
qed

lemma binary64_pos:
  assumes "0 < x"
  shows "0 < binary64 x"
proof -
  have "0 < x * (1 - 1 / 2 ^ 53)" using assms by simp
  then show ?thesis using binary64_bounds [OF assms] by linarith
qed

lemma Math_round_error: "\<bar>Math_round v - v\<bar> \<le> 1 / 2"
  unfolding Math_round_def by linarith

lemma Math_round_le_stage:
  assumes "v < s + 1 / 2" and "s \<in> \<int>"
  shows "Math_round v \<le> s"
proof -
  from assms(2) obtain k where k: "s = of_int k" by (auto elim: Ints_cases)
  have "v + 1 / 2 < of_int (k + 1)" using assms(1) k by simp
  then have "\<lfloor>v + 1 / 2\<rfloor> < k + 1" by (simp only: floor_less_iff)
  then have "\<lfloor>v + 1 / 2\<rfloor> \<le> k" by simp
  then show ?thesis unfolding Math_round_def k by simp
qed

subsection \<open>The two branches\<close>

text \<open>
  The branch that scales the height: the unrounded height \<open>u\<close> is below the stage
  height plus one half, and within the fraction \<open>2\<^sup>-\<^sup>5\<^sup>1\<close> of the exactly
  proportional height.
\<close>

lemma fit_height:
  fixes iw ih sw sh :: real
  assumes pos: "0 < iw" "0 < ih" "0 < sw" "0 < sh"
    and gt: "binary64 (iw / ih) > binary64 (sw / sh)"
    and sh: "sh \<le> 2 ^ 50"
  defines "u \<equiv> binary64 (sw / binary64 (iw / ih))"
  shows "u < sh + 1 / 2"
    and "\<bar>u - sw * ih / iw\<bar> \<le> (sw * ih / iw) / 2 ^ 51"
    and "sw / sh * (1 - 1 / 2 ^ 51) < iw / ih"
proof -
  define e :: real where "e = 1 / 2 ^ 53"
  define q where "q = iw / ih"
  define fq where "fq = binary64 q"
  define T where "T = sw / fq"
  define E where "E = sw * ih / iw"
  have q: "0 < q" unfolding q_def using pos by simp
  have qs: "0 < sw / sh" using pos by simp
  have fq: "0 < fq" unfolding fq_def using q by (rule binary64_pos)
  have T: "0 < T" unfolding T_def using pos fq by simp
  have E: "0 < E" unfolding E_def using pos by simp
  have bq: "q * (1 - e) \<le> fq" "fq \<le> q * (1 + e)"
    using binary64_bounds [OF q] unfolding fq_def e_def by simp_all
  have bs: "sw / sh * (1 - e) \<le> binary64 (sw / sh)"
    using binary64_bounds [OF qs] unfolding e_def by simp
  have bu: "T * (1 - e) \<le> u" "u \<le> T * (1 + e)"
    using binary64_bounds [OF T] unfolding u_def T_def fq_def q_def e_def by simp_all
  have "sw / sh * (1 - e) < fq" using bs gt unfolding fq_def q_def by linarith
  then have "sw * (1 - e) < fq * sh" using pos by (simp add: field_simps)
  then have 1: "T * (1 - e) < sh" unfolding T_def using fq by (simp add: field_simps)
  have Eq: "E * q = sw" unfolding E_def q_def using pos by simp
  have Tq: "T * fq = sw" unfolding T_def using fq by simp
  have "T * (q * (1 - e)) \<le> T * fq" using bq(1) T by (intro mult_left_mono) simp_all
  then have "(T * (1 - e)) * q \<le> E * q" unfolding Tq Eq by (simp add: algebra_simps)
  then have 2: "T * (1 - e) \<le> E" using q by (simp only: mult_le_cancel_right_pos)
  have "T * fq \<le> T * (q * (1 + e))" using bq(2) T by (intro mult_left_mono) simp_all
  then have "E * q \<le> (T * (1 + e)) * q" unfolding Tq Eq by (simp add: algebra_simps)
  then have 3: "E \<le> T * (1 + e)" using q by (simp only: mult_le_cancel_right_pos)
  show "u < sh + 1 / 2" using 1 bu(2) sh T unfolding e_def by simp
  have "u - E \<le> E / 2 ^ 51" using 2 bu(2) T unfolding e_def by (simp; linarith)
  moreover have "E - u \<le> E / 2 ^ 51" using 2 3 bu(1) T unfolding e_def by (simp; linarith)
  ultimately show "\<bar>u - sw * ih / iw\<bar> \<le> (sw * ih / iw) / 2 ^ 51"
    unfolding E_def [symmetric] by linarith
  have "sw / sh * (1 - e) < q * (1 + e)"
    using \<open>sw / sh * (1 - e) < fq\<close> bq(2) by linarith
  then show "sw / sh * (1 - 1 / 2 ^ 51) < iw / ih"
    using qs q unfolding q_def [symmetric] e_def by (simp; linarith)
qed

text \<open>The branch that scales the width, likewise.\<close>

lemma fit_width:
  fixes iw ih sw sh :: real
  assumes pos: "0 < iw" "0 < ih" "0 < sw" "0 < sh"
    and le: "\<not> binary64 (iw / ih) > binary64 (sw / sh)"
    and sw: "sw \<le> 2 ^ 50"
  defines "u \<equiv> binary64 (sh * binary64 (iw / ih))"
  shows "u < sw + 1 / 2"
    and "\<bar>u - sh * iw / ih\<bar> \<le> (sh * iw / ih) / 2 ^ 51"
    and "iw / ih \<le> sw / sh * (1 + 1 / 2 ^ 51)"
proof -
  define e :: real where "e = 1 / 2 ^ 53"
  define q where "q = iw / ih"
  define fq where "fq = binary64 q"
  define X where "X = sh * fq"
  define E where "E = sh * iw / ih"
  have q: "0 < q" unfolding q_def using pos by simp
  have qs: "0 < sw / sh" using pos by simp
  have fq: "0 < fq" unfolding fq_def using q by (rule binary64_pos)
  have X: "0 < X" unfolding X_def using pos fq by simp
  have E: "0 < E" unfolding E_def using pos by simp
  have bq: "q * (1 - e) \<le> fq" "fq \<le> q * (1 + e)"
    using binary64_bounds [OF q] unfolding fq_def e_def by simp_all
  have bs: "binary64 (sw / sh) \<le> sw / sh * (1 + e)"
    using binary64_bounds [OF qs] unfolding e_def by simp
  have bu: "X * (1 - e) \<le> u" "u \<le> X * (1 + e)"
    using binary64_bounds [OF X] unfolding u_def X_def fq_def q_def e_def by simp_all
  have f: "fq \<le> sw / sh * (1 + e)" using bs le unfolding fq_def q_def by linarith
  have "sh * fq \<le> sh * (sw / sh * (1 + e))" using f pos by (intro mult_left_mono) simp_all
  then have 1: "X \<le> sw * (1 + e)" unfolding X_def using pos by simp
  have Eq: "E = sh * q" unfolding E_def q_def by simp
  have "sh * (q * (1 - e)) \<le> sh * fq" using bq(1) pos by (intro mult_left_mono) simp_all
  then have 2: "E * (1 - e) \<le> X" unfolding Eq X_def by (simp add: algebra_simps)
  have "sh * fq \<le> sh * (q * (1 + e))" using bq(2) pos by (intro mult_left_mono) simp_all
  then have 3: "X \<le> E * (1 + e)" unfolding Eq X_def by (simp add: algebra_simps)
  show "u < sw + 1 / 2" using 1 bu(2) sw pos(3) unfolding e_def by simp
  have "u - E \<le> E / 2 ^ 51" using 3 bu(2) E unfolding e_def by (simp; linarith)
  moreover have "E - u \<le> E / 2 ^ 51" using 2 bu(1) E unfolding e_def by (simp; linarith)
  ultimately show "\<bar>u - sh * iw / ih\<bar> \<le> (sh * iw / ih) / 2 ^ 51"
    unfolding E_def [symmetric] by linarith
  have "q * (1 - e) \<le> sw / sh * (1 + e)" using f bq(1) by linarith
  then show "iw / ih \<le> sw / sh * (1 + 1 / 2 ^ 51)"
    using qs q unfolding q_def [symmetric] e_def by (simp; linarith)
qed

subsection \<open>The fitted size\<close>

text \<open>
  C4, as amended. Take image dimensions between \<open>2\<^sup>-\<^sup>5\<^sup>0\<^sup>0\<close> and \<open>2\<^sup>5\<^sup>0\<^sup>0\<close> (no
  quotient then leaves the normal range of the double format) and strictly positive,
  integer-valued stage dimensions of at most \<open>2\<^sup>5\<^sup>0\<close> (the component only ever passes
  the 800 by 800 default stage). Then the fitted size stays inside the stage and one of
  its coordinates is the stage's. The other coordinate is the rounding of a value that the
  double arithmetic has moved away from the exactly proportional value by at most the
  fraction \<open>2\<^sup>-\<^sup>5\<^sup>1\<close> of it: so the returned height differs from
  \<open>stageW * imageHeight / imageWidth\<close>, or the returned width from
  \<open>stageH * imageWidth / imageHeight\<close>, by at most one half plus that fraction. The
  height is the scaled coordinate when the rounded ratio of the image is greater than the
  rounded ratio of the stage, which needs the exact ratio of the image to be greater than
  \<open>1 - 2\<^sup>-\<^sup>5\<^sup>1\<close> times that of the stage; the width is the scaled coordinate otherwise,
  and then the exact ratio of the image is at most \<open>1 + 2\<^sup>-\<^sup>5\<^sup>1\<close> times that of the
  stage.
\<close>

theorem fitImage_fits:
  assumes "1 / 2 ^ 500 \<le> imageWidth" and "imageWidth \<le> 2 ^ 500"
    and "1 / 2 ^ 500 \<le> imageHeight" and "imageHeight \<le> 2 ^ 500"
    and "0 < stageW" and "stageW \<le> 2 ^ 50" and "stageW \<in> \<int>"
    and "0 < stageH" and "stageH \<le> 2 ^ 50" and "stageH \<in> \<int>"
  shows "width (fitImage imageWidth imageHeight stageW stageH) \<le> stageW
       \<and> height (fitImage imageWidth imageHeight stageW stageH) \<le> stageH
       \<and> (width (fitImage imageWidth imageHeight stageW stageH) = stageW
          \<or> height (fitImage imageWidth imageHeight stageW stageH) = stageH)
       \<and> (if binary64 (imageWidth / imageHeight) > binary64 (stageW / stageH)
          then width (fitImage imageWidth imageHeight stageW stageH) = stageW
             \<and> height (fitImage imageWidth imageHeight stageW stageH)
                 = Math_round (binary64 (stageW / binary64 (imageWidth / imageHeight)))
             \<and> \<bar>binary64 (stageW / binary64 (imageWidth / imageHeight))
                  - stageW * imageHeight / imageWidth\<bar>
                 \<le> (stageW * imageHeight / imageWidth) / 2 ^ 51
             \<and> \<bar>height (fitImage imageWidth imageHeight stageW stageH)
                  - stageW * imageHeight / imageWidth\<bar>
                 \<le> 1 / 2 + (stageW * imageHeight / imageWidth) / 2 ^ 51
             \<and> stageW / stageH * (1 - 1 / 2 ^ 51) < imageWidth / imageHeight
          else height (fitImage imageWidth imageHeight stageW stageH) = stageH
             \<and> width (fitImage imageWidth imageHeight stageW stageH)
                 = Math_round (binary64 (stageH * binary64 (imageWidth / imageHeight)))
             \<and> \<bar>binary64 (stageH * binary64 (imageWidth / imageHeight))
                  - stageH * imageWidth / imageHeight\<bar>
                 \<le> (stageH * imageWidth / imageHeight) / 2 ^ 51
             \<and> \<bar>width (fitImage imageWidth imageHeight stageW stageH)
                  - stageH * imageWidth / imageHeight\<bar>
                 \<le> 1 / 2 + (stageH * imageWidth / imageHeight) / 2 ^ 51
             \<and> imageWidth / imageHeight \<le> stageW / stageH * (1 + 1 / 2 ^ 51))"
proof -
  have "(0::real) < 1 / 2 ^ 500" by simp
  then have pos: "0 < imageWidth" "0 < imageHeight" "0 < stageW" "0 < stageH"
    using assms(1,3,5,8) by linarith+
  show ?thesis
  proof (cases "binary64 (imageWidth / imageHeight) > binary64 (stageW / stageH)")
    case True
    define u where "u = binary64 (stageW / binary64 (imageWidth / imageHeight))"
    have h: "height (fitImage imageWidth imageHeight stageW stageH) = Math_round u"
      and w: "width (fitImage imageWidth imageHeight stageW stageH) = stageW"
      using True by (simp_all add: fitImage_def Let_def u_def)
    note f = fit_height [OF pos True assms(9), folded u_def]
    have "Math_round u \<le> stageH" using f(1) assms(10) by (rule Math_round_le_stage)
    moreover have "\<bar>Math_round u - stageW * imageHeight / imageWidth\<bar>
        \<le> 1 / 2 + (stageW * imageHeight / imageWidth) / 2 ^ 51"
      using f(2) Math_round_error [of u] by linarith
    ultimately show ?thesis
      unfolding h w u_def [symmetric] using True f(2,3)
      by (simp only: if_True simp_thms order_refl)
  next
    case False
    define u where "u = binary64 (stageH * binary64 (imageWidth / imageHeight))"
    have w: "width (fitImage imageWidth imageHeight stageW stageH) = Math_round u"
      and h: "height (fitImage imageWidth imageHeight stageW stageH) = stageH"
      using False by (simp_all add: fitImage_def Let_def u_def)
    note f = fit_width [OF pos False assms(6), folded u_def]
    have "Math_round u \<le> stageW" using f(1) assms(7) by (rule Math_round_le_stage)
    moreover have "\<bar>Math_round u - stageH * imageWidth / imageHeight\<bar>
        \<le> 1 / 2 + (stageH * imageWidth / imageHeight) / 2 ^ 51"
      using f(2) Math_round_error [of u] by linarith
    ultimately show ?thesis
      unfolding h w u_def [symmetric] using False f(2,3)
      by (simp only: if_False simp_thms order_refl)
  qed
qed

text \<open>Some roundings, evaluated.\<close>

lemma binary64_640_602: "binary64 (640 / 602) = 4787880002520129 / 4503599627370496"
  unfolding binary64_def Let_def by (simp add: expo_def compute_floorlog rne_def Let_def)

lemma binary64_1: "binary64 (800 / 800) = 1" and binary64_1': "binary64 (1 / 1) = 1"
  unfolding binary64_def Let_def by (simp_all add: expo_def compute_floorlog rne_def Let_def)

lemma binary64_752:
  "binary64 (800 / (4787880002520129 / 4503599627370496))
     = 6619059999211519 / 8796093022208"
  unfolding binary64_def Let_def by (simp add: expo_def compute_floorlog rne_def Let_def)

lemma binary64_3_2: "binary64 (3 / 2 / (3 / 2)) = 1" and binary64_3_2': "binary64 (3 / 2 * 1) = 3 / 2"
  unfolding binary64_def Let_def by (simp_all add: expo_def compute_floorlog rne_def Let_def)

lemma binary64_1600_1200: "binary64 (1600 / 1200) = 6004799503160661 / 4503599627370496"
  unfolding binary64_def Let_def by (simp add: expo_def compute_floorlog rne_def Let_def)

lemma binary64_600: "binary64 (800 / (6004799503160661 / 4503599627370496)) = 600"
  unfolding binary64_def Let_def by (simp add: expo_def compute_floorlog rne_def Let_def)

text \<open>
  A 1600 by 1200 photograph on the default stage: the width is the stage's and the
  height is 600, the exactly proportional height.
\<close>

theorem fitImage_fits_witness:
  "width (fitImage 1600 1200 800 800) \<le> 800
   \<and> height (fitImage 1600 1200 800 800) \<le> 800
   \<and> width (fitImage 1600 1200 800 800) = 800
   \<and> \<bar>height (fitImage 1600 1200 800 800) - 800 * 1200 / 1600\<bar>
       \<le> 1 / 2 + (800 * 1200 / 1600) / 2 ^ 51
   \<and> height (fitImage 1600 1200 800 800) = 600"
proof -
  have image: "1 / 2 ^ 500 \<le> (1600::real)" "(1600::real) \<le> 2 ^ 500"
    "1 / 2 ^ 500 \<le> (1200::real)" "(1200::real) \<le> 2 ^ 500"
    by simp_all
  have stage: "0 < (800::real)" "(800::real) \<le> 2 ^ 50" "(800::real) \<in> \<int>"
    by simp_all
  have wider: "binary64 (1600 / 1200) > binary64 (800 / 800)"
    unfolding binary64_1600_1200 binary64_1 by simp
  have v: "fitImage 1600 1200 800 800 = \<lparr>width = 800, height = 600\<rparr>"
    unfolding fitImage_def Let_def binary64_1600_1200 binary64_1 binary64_600
    by (simp add: Math_round_def)
  from fitImage_fits [OF image stage stage, unfolded if_P [OF wider]]
  have "width (fitImage 1600 1200 800 800) \<le> 800
      \<and> height (fitImage 1600 1200 800 800) \<le> 800
      \<and> width (fitImage 1600 1200 800 800) = 800
      \<and> \<bar>height (fitImage 1600 1200 800 800) - 800 * 1200 / 1600\<bar>
          \<le> 1 / 2 + (800 * 1200 / 1600) / 2 ^ 51"
    by blast
  then show ?thesis using v by simp
qed

text \<open>
  C4 as the specification states it fails in two ways. The unrounded value of the scaled
  coordinate is not the exactly proportional value: for a 640 by 602 image on the default
  stage the exact height is 752.5, which rounds to 753, but the double quotient
  \<open>800 / (640 / 602)\<close> is just below 752.5 and the returned height is 752. And for a
  stage dimension that is not an integer the fitted size can leave the stage: a square
  image on a 1.5 by 1.5 stage gets the width \<open>round 1.5 = 2\<close>.
\<close>

theorem fitImage_not_exact_counterexample:
  "binary64 (800 / binary64 (640 / 602)) \<noteq> 800 * 602 / 640
   \<and> height (fitImage 640 602 800 800) = 752
   \<and> Math_round (800 * 602 / 640) = 753
   \<and> width (fitImage 1 1 (3 / 2) (3 / 2)) = 2
   \<and> \<not> width (fitImage 1 1 (3 / 2) (3 / 2)) \<le> 3 / 2"
proof -
  have a: "binary64 (800 / binary64 (640 / 602)) = 6619059999211519 / 8796093022208"
    unfolding binary64_640_602 by (rule binary64_752)
  have b: "fitImage 640 602 800 800 = \<lparr>width = 800, height = 752\<rparr>"
    unfolding fitImage_def Let_def binary64_640_602 binary64_1 binary64_752
    by (simp add: Math_round_def)
  have c: "fitImage 1 1 (3 / 2) (3 / 2) = \<lparr>width = 2, height = 3 / 2\<rparr>"
    unfolding fitImage_def Let_def binary64_1' binary64_3_2 binary64_3_2'
    by (simp add: Math_round_def)
  show ?thesis unfolding a b c by (simp add: Math_round_def)
qed

section \<open>Properties of the polyline sampling\<close>

lemma Math_hypot_nonneg: "0 \<le> Math_hypot a b"
  by (simp add: Math_hypot_def)

lemma segLens_loop_eq:
  "segLens_loop pts i sl tot =
     Inr (sl @ map (seg_len pts) [i..<length pts - 1],
          tot + sum_list (map (seg_len pts) [i..<length pts - 1]))"
proof (induction pts i sl tot rule: segLens_loop.induct)
  case (1 pts i segLens tot)
  show ?case
  proof (cases "int i < int (length pts) - 1")
    case True
    then have lt: "i + 1 < length pts" by linarith
    then have up: "[i..<length pts - 1] = i # [i + 1..<length pts - 1]"
      by (simp add: upt_conv_Cons)
    have a: "at_index pts (i + 1) = Some (pts ! (i + 1))" "at_index pts i = Some (pts ! i)"
      using lt by (simp_all add: at_index_def)
    have "segLens_loop pts i segLens tot =
            segLens_loop pts (i + 1) (segLens @ [seg_len pts i]) (tot + seg_len pts i)"
      using True a by (subst segLens_loop.simps) (simp add: Let_def seg_len_def)
    also have "\<dots> = Inr ((segLens @ [seg_len pts i]) @ map (seg_len pts) [i + 1..<length pts - 1],
          (tot + seg_len pts i) + sum_list (map (seg_len pts) [i + 1..<length pts - 1]))"
    proof -
      have e: "Math_hypot (px (pts ! (i + 1)) - px (pts ! i)) (py (pts ! (i + 1)) - py (pts ! i))
                 = seg_len pts i"
        by (simp add: seg_len_def)
      show ?thesis
        using "1.IH" [OF True refl a(1) a(2) refl refl refl] unfolding e .
    qed
    finally show ?thesis using up by simp
  next
    case False
    then have "[i..<length pts - 1] = []" by simp
    with False show ?thesis by (subst segLens_loop.simps) simp
  qed
qed


lemma seg_lens_length: "length (seg_lens pts) = length pts - 1"
  by (simp add: seg_lens_def)

lemma polyline_length_nonneg: "0 \<le> polyline_length pts"
  unfolding polyline_length_def seg_lens_def
  by (rule sum_list_nonneg) (auto simp: seg_len_def Math_hypot_nonneg)

lemma segLens_loop_start:
  "segLens_loop pts 0 [] 0 = Inr (seg_lens pts, polyline_length pts)"
  by (simp add: segLens_loop_eq seg_lens_def polyline_length_def)

lemma find_segment_inv:
  assumes "accum = sum_list (take k sl)" and "accum < t" and "t \<le> sum_list sl"
  shows "case find_segment sl t accum k of
           (a', k') \<Rightarrow> k' < length sl \<and> a' = sum_list (take k' sl) \<and> a' < t \<and> t \<le> a' + sl ! k'"
  using assms
proof (induction sl t accum k rule: find_segment.induct)
  case (1 segLens t accum segIdx)
  show ?case
  proof (cases "segIdx < length segLens \<and> accum + segLens ! segIdx < t")
    case True
    have "accum + segLens ! segIdx = sum_list (take (segIdx + 1) segLens)"
      using True "1.prems"(1) by (simp add: take_Suc_conv_app_nth)
    then show ?thesis
      using "1.IH" [OF True] True "1.prems"(3)
      by (subst find_segment.simps) simp
  next
    case False
    have "segIdx < length segLens"
    proof (rule ccontr)
      assume "\<not> segIdx < length segLens"
      then have "accum = sum_list segLens" using "1.prems"(1) by simp
      with "1.prems"(2,3) show False by simp
    qed
    with False "1.prems" show ?thesis
      by (subst find_segment.simps) auto
  qed
qed

lemma locate_inv:
  assumes "0 < t" and "t \<le> sum_list sl"
  shows "case locate sl t of
           (a', k') \<Rightarrow> k' < length sl \<and> a' = sum_list (take k' sl) \<and> a' < t \<and> t \<le> a' + sl ! k'"
proof -
  have "case find_segment sl t 0 0 of
           (a', k') \<Rightarrow> k' < length sl \<and> a' = sum_list (take k' sl) \<and> a' < t \<and> t \<le> a' + sl ! k'"
    using assms by (intro find_segment_inv) simp_all
  then show ?thesis
    by (auto simp: locate_def split: prod.splits)
qed

lemma sample_t_bounds:
  assumes "s < n" and "0 < tot"
  shows "0 < sample_t tot n s" and "sample_t tot n s < tot"
proof -
  have n: "0 < real n" using assms(1) by simp
  have "real s + 0.5 < real n" using assms(1) by simp
  then have "(real s + 0.5) / real n < 1" using n by simp
  then have "(real s + 0.5) / real n * tot < 1 * tot"
    using assms(2) by (rule mult_strict_right_mono)
  then show "sample_t tot n s < tot"
    by (simp add: sample_t_def)
  have "0 < (real s + 0.5) / real n" using n by simp
  then have "0 < (real s + 0.5) / real n * tot"
    using assms(2) by (rule mult_pos_pos)
  then show "0 < sample_t tot n s"
    by (simp add: sample_t_def)
qed


lemma sample_at_ok:
  assumes "s < n" and "0 < polyline_length pts"
  shows "segment_index pts n s < length (seg_lens pts) \<and>
         (\<exists>smp u. sample_at pts (seg_lens pts) (polyline_length pts) n s = Inr smp \<and> 0 \<le> u \<and> u \<le> 1
            \<and> sx smp = px (pts ! segment_index pts n s)
                 + (px (pts ! (segment_index pts n s + 1)) - px (pts ! segment_index pts n s)) * u
            \<and> sy smp = py (pts ! segment_index pts n s)
                 + (py (pts ! (segment_index pts n s + 1)) - py (pts ! segment_index pts n s)) * u)"
proof -
  define t where "t = sample_t (polyline_length pts) n s"
  obtain a k where loc: "locate (seg_lens pts) t = (a, k)" by (cases "locate (seg_lens pts) t")
  have t: "0 < t" "t \<le> sum_list (seg_lens pts)"
    using sample_t_bounds [OF assms] by (simp_all add: t_def polyline_length_def)
  from locate_inv [OF t] loc
  have k: "k < length (seg_lens pts)" and a: "a < t" "t \<le> a + seg_lens pts ! k"
    by simp_all
  have kpts: "k + 1 < length pts" using k by (simp add: seg_lens_length)
  have idx: "segment_index pts n s = k"
    by (simp add: segment_index_def t_def [symmetric] loc)
  define l where "l = seg_lens pts ! k"
  have l: "0 < l" using a by (simp add: l_def)
  define u where "u = (t - a) / l"
  have u: "0 \<le> u" "u \<le> 1" using a l by (simp_all add: u_def l_def)
  have o: "or_one (at_index (seg_lens pts) k) = l"
    using k l by (simp add: or_one_def at_index_def l_def)
  have p: "at_index pts k = Some (pts ! k)" "at_index pts (k + 1) = Some (pts ! (k + 1))"
    using kpts by (simp_all add: at_index_def)
  have "\<exists>smp. sample_at pts (seg_lens pts) (polyline_length pts) n s = Inr smp
          \<and> sx smp = px (pts ! k) + (px (pts ! (k + 1)) - px (pts ! k)) * u
          \<and> sy smp = py (pts ! k) + (py (pts ! (k + 1)) - py (pts ! k)) * u"
    using p by (simp add: sample_at_def t_def [symmetric] loc o u_def Let_def)
  with u k idx show ?thesis by auto
qed

lemma samples_loop_all:
  assumes "\<forall>s'<n. \<exists>smp. sample_at pts sl tot n s' = Inr smp"
  shows "samples_loop pts sl tot n s acc =
           Inr (acc @ map (\<lambda>s'. projr (sample_at pts sl tot n s')) [s..<n])"
  using assms
proof (induction pts sl tot n s acc rule: samples_loop.induct)
  case (1 pts segLens tot n s samples)
  show ?case
  proof (cases "s < n")
    case True
    then obtain smp where smp: "sample_at pts segLens tot n s = Inr smp"
      using "1.prems" by blast
    have up: "[s..<n] = s # [s + 1..<n]" using True by (simp add: upt_conv_Cons)
    show ?thesis
      using "1.IH" [OF True smp "1.prems"] True smp up
      by (subst samples_loop.simps) simp
  next
    case False
    then show ?thesis by (subst samples_loop.simps) simp
  qed
qed


lemma Math_hypot_axis: "Math_hypot a 0 = \<bar>a\<bar>"
  by (simp add: Math_hypot_def)


text \<open>
  An L-shaped polyline of length 20, sampled twice: one sample in the middle of each
  leg, each with the unit normal of its leg.
\<close>

lemma samplesAlong_example:
  "samplesAlong [\<lparr>px = 0, py = 0\<rparr>, \<lparr>px = 10, py = 0\<rparr>, \<lparr>px = 10, py = 10\<rparr>] 2
     = Inr [\<lparr>sx = 5, sy = 0, nx = 0, ny = 1\<rparr>, \<lparr>sx = 10, sy = 5, nx = - 1, ny = 0\<rparr>]"
  by (simp add: samplesAlong_def segLens_loop.simps samples_loop.simps sample_at_def locate_def
        find_segment.simps sample_t_def at_index_def or_one_def Math_hypot_def Let_def)

section \<open>Properties of the marker updates\<close>

lemma spread_id: "ap_id (spread pt data) = ap_id pt"
  by (simp add: spread_def)

lemma points_updatePointMeta:
  "points (updatePointMeta pid data st) =
     map (\<lambda>pt. if ap_id pt = pid then spread pt data else pt) (points st)"
  by (simp add: updatePointMeta_def)

lemma updatePointMeta_absent:
  assumes "pid \<notin> ap_id ` set (points st)"
  shows "updatePointMeta pid data st = st"
proof -
  have "map (\<lambda>pt. if ap_id pt = pid then spread pt data else pt) (points st) = points st"
    using assms by (intro map_idI) auto
  then show ?thesis by (simp add: updatePointMeta_def)
qed

text \<open>
  C8. \<^verbatim>\<open>updatePointMeta\<close> keeps the length and the order of the marker list and every
  identifier; a marker with another identifier is unchanged; in a marker with the
  identifier each field takes the value of the update when the update has the key, and
  keeps its value otherwise; when no marker has the identifier the state is unchanged;
  nothing but the marker list is touched.
\<close>

theorem updatePointMeta_frame:
  "length (points (updatePointMeta pid data st)) = length (points st)
   \<and> (\<forall>i<length (points st).
         ap_id (points (updatePointMeta pid data st) ! i) = ap_id (points st ! i)
         \<and> (ap_id (points st ! i) \<noteq> pid \<longrightarrow>
              points (updatePointMeta pid data st) ! i = points st ! i)
         \<and> (ap_id (points st ! i) = pid \<longrightarrow>
              ap_x (points (updatePointMeta pid data st) ! i)
                = (case patch_x data of None \<Rightarrow> ap_x (points st ! i) | Some v \<Rightarrow> v)
              \<and> ap_y (points (updatePointMeta pid data st) ! i)
                = (case patch_y data of None \<Rightarrow> ap_y (points st ! i) | Some v \<Rightarrow> v)
              \<and> ap_product (points (updatePointMeta pid data st) ! i)
                = (case patch_product data of None \<Rightarrow> ap_product (points st ! i) | Some v \<Rightarrow> v)
              \<and> ap_dose (points (updatePointMeta pid data st) ! i)
                = (case patch_dose data of None \<Rightarrow> ap_dose (points st ! i) | Some v \<Rightarrow> v)))
   \<and> (pid \<notin> ap_id ` set (points st) \<longrightarrow> updatePointMeta pid data st = st)
   \<and> updatePointMeta pid data st = st\<lparr>points := points (updatePointMeta pid data st)\<rparr>"
proof (intro conjI allI impI)
  show "pid \<notin> ap_id ` set (points st) \<Longrightarrow> updatePointMeta pid data st = st"
    by (rule updatePointMeta_absent)
qed (simp_all add: points_updatePointMeta spread_def, simp add: updatePointMeta_def)


text \<open>The first of two markers is dragged: the second one and the labels stay.\<close>

theorem updatePointMeta_frame_witness:
  "length (points (updatePointMeta ''a'' example_drag example_state)) = 2
   \<and> points (updatePointMeta ''a'' example_drag example_state) ! 1 = points example_state ! 1
   \<and> ap_x (points (updatePointMeta ''a'' example_drag example_state) ! 0) = 5
   \<and> ap_y (points (updatePointMeta ''a'' example_drag example_state) ! 0) = 6
   \<and> ap_product (points (updatePointMeta ''a'' example_drag example_state) ! 0) = Some ''filler''"
  using updatePointMeta_frame [of "''a''" example_drag example_state]
  by (simp add: example_state_def example_drag_def)

section \<open>Properties of the snapping\<close>

text \<open>
  What the loop has found after the landmarks below \<open>i\<close>: nothing, when none of them is
  within the radius, and otherwise one of them that is within the radius and at least as
  near as each of the others.
\<close>

lemma snap_loop_inv:
  assumes "case best of
             None \<Rightarrow> \<forall>j<i. \<not> lm_dist pt (lms ! j) \<le> radius
           | Some b \<Rightarrow> best_idx b < length lms \<and> best_dist b = lm_dist pt (lms ! best_idx b)
                        \<and> best_dist b \<le> radius \<and> (\<forall>j<i. best_dist b \<le> lm_dist pt (lms ! j))"
    and "i \<le> length lms"
  shows "case snap_loop lms pt radius i best of
             None \<Rightarrow> \<forall>j<length lms. \<not> lm_dist pt (lms ! j) \<le> radius
           | Some b \<Rightarrow> best_idx b < length lms \<and> best_dist b = lm_dist pt (lms ! best_idx b)
                        \<and> best_dist b \<le> radius
                        \<and> (\<forall>j<length lms. best_dist b \<le> lm_dist pt (lms ! j))"
  using assms
proof (induction lms pt radius i best rule: snap_loop.induct)
  case (1 lms pt radius i best)
  show ?case
  proof (cases "i < length lms")
    case False
    with "1.prems" have "i = length lms" by simp
    with "1.prems"(1) False show ?thesis
      by (subst snap_loop.simps) (auto split: option.splits)
  next
    case True
    define d where "d = Math_hypot (lm0 (lms ! i) - ap_x pt) (lm1 (lms ! i) - ap_y pt)"
    define best' where
      "best' = (if d \<le> radius \<and> (case best of None \<Rightarrow> True | Some b \<Rightarrow> d < best_dist b)
                then Some \<lparr>best_idx = i, best_dist = d\<rparr> else best)"
    have d: "d = lm_dist pt (lms ! i)" by (simp add: d_def lm_dist_def)
    have at: "at_index lms i = Some (lms ! i)" using True by (simp add: at_index_def)
    have step: "snap_loop lms pt radius i best = snap_loop lms pt radius (i + 1) best'"
      unfolding best'_def d_def using True at
      by (subst snap_loop.simps) (simp add: Let_def)
    have inv': "case best' of
             None \<Rightarrow> \<forall>j<i + 1. \<not> lm_dist pt (lms ! j) \<le> radius
           | Some b \<Rightarrow> best_idx b < length lms \<and> best_dist b = lm_dist pt (lms ! best_idx b)
                        \<and> best_dist b \<le> radius \<and> (\<forall>j<i + 1. best_dist b \<le> lm_dist pt (lms ! j))"
      using "1.prems"(1) True d
      by (auto simp: best'_def less_Suc_eq split: option.splits)
    have "case snap_loop lms pt radius (i + 1) best' of
             None \<Rightarrow> \<forall>j<length lms. \<not> lm_dist pt (lms ! j) \<le> radius
           | Some b \<Rightarrow> best_idx b < length lms \<and> best_dist b = lm_dist pt (lms ! best_idx b)
                        \<and> best_dist b \<le> radius
                        \<and> (\<forall>j<length lms. best_dist b \<le> lm_dist pt (lms ! j))"
      using True inv'
      by (intro "1.IH"(2) [OF True at refl refl refl, folded d_def, folded best'_def]) simp_all
    with step show ?thesis by simp
  qed
qed


lemma snap_loop_start:
  "case snap_loop lms pt radius 0 None of
     None \<Rightarrow> \<forall>lm\<in>set lms. \<not> lm_dist pt lm \<le> radius
   | Some b \<Rightarrow> best_idx b < length lms \<and> lm_dist pt (lms ! best_idx b) \<le> radius
                \<and> (\<forall>lm\<in>set lms. lm_dist pt (lms ! best_idx b) \<le> lm_dist pt lm)"
proof -
  have "case snap_loop lms pt radius 0 None of
             None \<Rightarrow> \<forall>j<length lms. \<not> lm_dist pt (lms ! j) \<le> radius
           | Some b \<Rightarrow> best_idx b < length lms \<and> best_dist b = lm_dist pt (lms ! best_idx b)
                        \<and> best_dist b \<le> radius
                        \<and> (\<forall>j<length lms. best_dist b \<le> lm_dist pt (lms ! j))"
    by (rule snap_loop_inv) simp_all
  then show ?thesis
    by (auto simp: in_set_conv_nth split: option.splits)
qed

lemma spread_snap_patch: "spread p (snap_patch lm) = p\<lparr>ap_x := lm0 lm, ap_y := lm1 lm\<rparr>"
  by (simp add: spread_def snap_patch_def)

text \<open>The two ways a snap ends: nothing changes, or the nearest landmark is taken.\<close>

lemma snap_cases:
  "(snapPointToNearestLandmark pid ra st = Inr st
      \<and> (find (\<lambda>p. ap_id p = pid) (points st) = None \<or> landmarks st = []
         \<or> (\<exists>pt. find (\<lambda>p. ap_id p = pid) (points st) = Some pt
               \<and> (\<forall>lm\<in>set (landmarks st). \<not> lm_dist pt lm \<le> radius_or_default ra))))
   \<or> (\<exists>pt lm. find (\<lambda>p. ap_id p = pid) (points st) = Some pt
         \<and> lm \<in> set (landmarks st) \<and> lm_dist pt lm \<le> radius_or_default ra
         \<and> (\<forall>lm'\<in>set (landmarks st). lm_dist pt lm \<le> lm_dist pt lm')
         \<and> snapPointToNearestLandmark pid ra st = Inr (updatePointMeta pid (snap_patch lm) st))"
proof (cases "find (\<lambda>p. ap_id p = pid) (points st)")
  case None
  then show ?thesis by (simp add: snapPointToNearestLandmark_def)
next
  case (Some pt)
  show ?thesis
  proof (cases "landmarks st = []")
    case True
    with Some show ?thesis by (simp add: snapPointToNearestLandmark_def)
  next
    case False
    note ne = this
    show ?thesis
    proof (cases "snap_loop (landmarks st) pt (radius_or_default ra) 0 None")
      case None
      with snap_loop_start [of "landmarks st" pt "radius_or_default ra"]
      have "\<forall>lm\<in>set (landmarks st). \<not> lm_dist pt lm \<le> radius_or_default ra" by simp
      with Some None ne show ?thesis
        by (simp add: snapPointToNearestLandmark_def Let_def)
    next
      case (Some b)
      with snap_loop_start [of "landmarks st" pt "radius_or_default ra"]
      have b: "best_idx b < length (landmarks st)"
        "lm_dist pt (landmarks st ! best_idx b) \<le> radius_or_default ra"
        "\<forall>lm\<in>set (landmarks st). lm_dist pt (landmarks st ! best_idx b) \<le> lm_dist pt lm"
        by simp_all
      have "snapPointToNearestLandmark pid ra st
              = Inr (updatePointMeta pid (snap_patch (landmarks st ! best_idx b)) st)"
        using \<open>find (\<lambda>p. ap_id p = pid) (points st) = Some pt\<close> Some ne b(1)
        by (simp add: snapPointToNearestLandmark_def Let_def at_index_def snap_patch_def)
      moreover have "landmarks st ! best_idx b \<in> set (landmarks st)"
        using b(1) by simp
      ultimately show ?thesis
        using \<open>find (\<lambda>p. ap_id p = pid) (points st) = Some pt\<close> b(2,3) by blast
    qed
  qed
qed


text \<open>
  C9. A snap of the marker \<open>pid\<close> leaves the state as it is when no marker has the
  identifier, when the mesh is empty, and when no landmark is within the radius (12 when
  the call gives none) of the marker. Otherwise it moves the marker to a landmark that
  is within the radius and at least as near to it as every landmark of the mesh. In all
  cases it returns, only the marker list can change, its length and order stay, every
  marker keeps its identifier, product and dose, and a marker with another identifier
  is unchanged. (The distance is taken from the first marker that has the identifier.)
\<close>

theorem snapPointToNearestLandmark_nearest:
  "(find (\<lambda>p. ap_id p = pid) (points st) = None \<longrightarrow> snapPointToNearestLandmark pid ra st = Inr st)
   \<and> (landmarks st = [] \<longrightarrow> snapPointToNearestLandmark pid ra st = Inr st)
   \<and> (\<forall>pt. find (\<lambda>p. ap_id p = pid) (points st) = Some pt \<longrightarrow>
         ((\<forall>lm\<in>set (landmarks st). \<not> lm_dist pt lm \<le> radius_or_default ra) \<longrightarrow>
            snapPointToNearestLandmark pid ra st = Inr st)
       \<and> ((\<exists>lm\<in>set (landmarks st). lm_dist pt lm \<le> radius_or_default ra) \<longrightarrow>
            (\<exists>lm\<in>set (landmarks st).
               lm_dist pt lm \<le> radius_or_default ra
               \<and> (\<forall>lm'\<in>set (landmarks st). lm_dist pt lm \<le> lm_dist pt lm')
               \<and> snapPointToNearestLandmark pid ra st =
                   Inr (st\<lparr>points := map (\<lambda>p. if ap_id p = pid
                                                then p\<lparr>ap_x := lm0 lm, ap_y := lm1 lm\<rparr> else p)
                                          (points st)\<rparr>))))
   \<and> (\<exists>st'. snapPointToNearestLandmark pid ra st = Inr st'
         \<and> st' = st\<lparr>points := points st'\<rparr>
         \<and> length (points st') = length (points st)
         \<and> (\<forall>i<length (points st).
               ap_id (points st' ! i) = ap_id (points st ! i)
               \<and> ap_product (points st' ! i) = ap_product (points st ! i)
               \<and> ap_dose (points st' ! i) = ap_dose (points st ! i)
               \<and> (ap_id (points st ! i) \<noteq> pid \<longrightarrow> points st' ! i = points st ! i)))"
proof -
  let ?snap = "snapPointToNearestLandmark pid ra st"
  let ?moved = "\<lambda>lm. st\<lparr>points := map (\<lambda>p. if ap_id p = pid
                                                then p\<lparr>ap_x := lm0 lm, ap_y := lm1 lm\<rparr> else p)
                                          (points st)\<rparr>"
  let ?frame = "\<lambda>st'. st' = st\<lparr>points := points st'\<rparr>
         \<and> length (points st') = length (points st)
         \<and> (\<forall>i<length (points st).
               ap_id (points st' ! i) = ap_id (points st ! i)
               \<and> ap_product (points st' ! i) = ap_product (points st ! i)
               \<and> ap_dose (points st' ! i) = ap_dose (points st ! i)
               \<and> (ap_id (points st ! i) \<noteq> pid \<longrightarrow> points st' ! i = points st ! i))"
  have upd: "updatePointMeta pid (snap_patch lm) st = ?moved lm" for lm
    by (simp add: updatePointMeta_def spread_snap_patch)
  have frame_same: "?frame st" by simp
  have frame_moved: "?frame (?moved lm)" for lm by simp
  from snap_cases [of pid ra st] consider
    (same) "?snap = Inr st"
      "find (\<lambda>p. ap_id p = pid) (points st) = None \<or> landmarks st = []
         \<or> (\<exists>pt. find (\<lambda>p. ap_id p = pid) (points st) = Some pt
               \<and> (\<forall>lm\<in>set (landmarks st). \<not> lm_dist pt lm \<le> radius_or_default ra))"
  | (moved) pt lm where "find (\<lambda>p. ap_id p = pid) (points st) = Some pt"
      "lm \<in> set (landmarks st)" "lm_dist pt lm \<le> radius_or_default ra"
      "\<forall>lm'\<in>set (landmarks st). lm_dist pt lm \<le> lm_dist pt lm'"
      "?snap = Inr (updatePointMeta pid (snap_patch lm) st)"
    by blast
  then show ?thesis
  proof cases
    case same
    note why = same(2) and same = same(1)
    have 4: "\<exists>st'. ?snap = Inr st' \<and> ?frame st'"
      by (rule exI [of _ st], rule conjI, rule same, rule frame_same)
    have 3: "\<not> (\<exists>lm\<in>set (landmarks st). lm_dist pt lm \<le> radius_or_default ra)"
      if "find (\<lambda>p. ap_id p = pid) (points st) = Some pt" for pt
      using why that by auto
    show ?thesis
    proof (intro conjI allI impI)
      show "\<exists>st'. ?snap = Inr st' \<and> ?frame st'"
        by (rule 4)
    next
      fix pt
      assume "find (\<lambda>p. ap_id p = pid) (points st) = Some pt"
        and "\<exists>lm\<in>set (landmarks st). lm_dist pt lm \<le> radius_or_default ra"
      then show "\<exists>lm\<in>set (landmarks st).
               lm_dist pt lm \<le> radius_or_default ra
               \<and> (\<forall>lm'\<in>set (landmarks st). lm_dist pt lm \<le> lm_dist pt lm')
               \<and> ?snap = Inr (?moved lm)"
        using 3 [of pt] by auto
    qed (simp_all add: same)
  next
    case (moved pt lm)
    note found = moved(1) and lm = moved(2,3,4) and snap = moved(5)
    have snap': "?snap = Inr (?moved lm)" using snap upd by simp
    have 4: "\<exists>st'. ?snap = Inr st' \<and> ?frame st'"
      by (rule exI [of _ "?moved lm"], rule conjI, rule snap', rule frame_moved)
    show ?thesis
    proof (intro conjI allI impI)
      show "\<exists>st'. ?snap = Inr st' \<and> ?frame st'"
        by (rule 4)
    next
      fix pt'
      assume "find (\<lambda>p. ap_id p = pid) (points st) = Some pt'"
      then have "pt' = pt" using found by simp
      then show "\<exists>lm\<in>set (landmarks st).
               lm_dist pt' lm \<le> radius_or_default ra
               \<and> (\<forall>lm'\<in>set (landmarks st). lm_dist pt' lm \<le> lm_dist pt' lm')
               \<and> ?snap = Inr (?moved lm)"
        using lm snap' by blast
    next
      fix pt'
      assume "find (\<lambda>p. ap_id p = pid) (points st) = Some pt'"
        and "\<forall>lm\<in>set (landmarks st). \<not> lm_dist pt' lm \<le> radius_or_default ra"
      then show "?snap = Inr st" using found lm by auto
    next
      assume "find (\<lambda>p. ap_id p = pid) (points st) = None"
      then show "?snap = Inr st" using found by simp
    next
      assume "landmarks st = []"
      then show "?snap = Inr st" using lm by simp
    qed
  qed
qed

text \<open>
  The marker \<open>a\<close> at (0, 0) and landmarks at distance 3, 1 and 50: the snap moves it to
  the second landmark and leaves the marker \<open>b\<close> alone.
\<close>

theorem snapPointToNearestLandmark_nearest_witness:
  "find (\<lambda>p. ap_id p = ''a'') (points example_state) = Some (points example_state ! 0)
   \<and> lm_dist (points example_state ! 0) (landmarks example_state ! 1) = 1
   \<and> radius_or_default None = 12
   \<and> snapPointToNearestLandmark ''a'' None example_state =
        Inr (example_state
              \<lparr>points := [\<lparr>ap_id = ''a'', ap_x = 1, ap_y = 0, ap_product = Some ''filler'',
                           ap_dose = Some ''''\<rparr>,
                          \<lparr>ap_id = ''b'', ap_x = 100, ap_y = 0, ap_product = Some '''',
                           ap_dose = Some ''''\<rparr>]\<rparr>)"
  using snapPointToNearestLandmark_nearest [of "''a''" example_state None]
  by (simp add: example_state_def initial_state_def lm_dist_def Math_hypot_axis
        radius_or_default_def)

section \<open>The effect logs do not touch the cells\<close>

lemma same_cells_refl: "same_cells st st"
  by (simp add: same_cells_def)

lemma same_cells_trans: "same_cells a b \<Longrightarrow> same_cells b c \<Longrightarrow> same_cells a c"
  by (simp add: same_cells_def)

lemma same_cells_log: "same_cells st (console_log entry st)"
  by (simp add: same_cells_def console_log_def)

lemma same_cells_call: "same_cells st (call c st)"
  by (simp add: same_cells_def call_def)

lemma same_cells_log': "same_cells a b \<Longrightarrow> same_cells a (console_log entry b)"
  by (simp add: same_cells_def console_log_def)

lemma same_cells_call': "same_cells a b \<Longrightarrow> same_cells a (call c b)"
  by (simp add: same_cells_def call_def)

lemma estimateCascade_cells: "same_cells st (snd (estimateCascade env st))"
  by (simp add: estimateCascade_def Let_def same_cells_call same_cells_call'
        split: Outcome.splits)

lemma extractMesh_cells: "same_cells st (snd (extractMesh face st))"
  by (simp add: extractMesh_def same_cells_refl same_cells_log split: option.splits)

section \<open>Properties of the identifiers\<close>

lemma ids_issued_cells:
  "same_cells st st' \<Longrightarrow> ids_issued gen st' = ids_issued gen st"
  by (simp add: ids_issued_def same_cells_def)

text \<open>Markers made by the next calls of \<^verbatim>\<open>nanoid()\<close> can be appended, or replace the list.\<close>

lemma ids_issued_fresh:
  assumes "inj gen" and "ids_issued gen st"
    and "map ap_id new = map gen [nanoid_calls st..<c]" and "nanoid_calls st \<le> c"
    and "nanoid_calls st' = c"
  shows "points st' = points st @ new \<Longrightarrow> ids_issued gen st'"
    and "points st' = new \<Longrightarrow> ids_issued gen st'"
proof -
  have d: "distinct (map gen [nanoid_calls st..<c])"
    using assms(1) by (simp add: distinct_map inj_on_def inj_def)
  have sub: "gen ` {..<nanoid_calls st} \<subseteq> gen ` {..<c}" using assms(4) by auto
  have new: "set (map gen [nanoid_calls st..<c]) \<subseteq> gen ` {..<c}" by auto
  have disj: "gen ` {..<nanoid_calls st} \<inter> set (map gen [nanoid_calls st..<c]) = {}"
    using assms(1) by (fastforce simp: inj_def)
  have old: "set (map ap_id (points st)) \<subseteq> gen ` {..<nanoid_calls st}"
    "distinct (map ap_id (points st))"
    using assms(2) by (simp_all add: ids_issued_def)
  show "ids_issued gen st'" if "points st' = points st @ new"
  proof -
    have ids: "map ap_id (points st') = map ap_id (points st) @ map gen [nanoid_calls st..<c]"
      using that assms(3) by simp
    have "set (map ap_id (points st)) \<inter> set (map gen [nanoid_calls st..<c]) = {}"
      using old(1) disj by blast
    then have 1: "distinct (map ap_id (points st'))"
      unfolding ids using old(2) d by (simp only: distinct_append)
    have 2: "set (map ap_id (points st')) \<subseteq> gen ` {..<c}"
      unfolding ids using old(1) sub new by (simp only: set_append) blast
    from 1 2 show ?thesis
      unfolding ids_issued_def assms(5) by simp
  qed
  show "ids_issued gen st'" if "points st' = new"
    using that assms(3,5) d new by (simp add: ids_issued_def)
qed

lemma nanoid_simps:
  "fst (nanoid gen st) = gen (nanoid_calls st)"
  "snd (nanoid gen st) = st\<lparr>nanoid_calls := Suc (nanoid_calls st)\<rparr>"
  by (simp_all add: nanoid_def)

text \<open>
  The three loops that make markers use the identifiers of the next calls, in order,
  and change nothing of the state but the count of the calls.
\<close>

lemma defaultPoints_ids:
  "\<exists>c. nanoid_calls st \<le> c
     \<and> snd (defaultPoints gen indices mesh st) = st\<lparr>nanoid_calls := c\<rparr>
     \<and> map ap_id (fst (defaultPoints gen indices mesh st)) = map gen [nanoid_calls st..<c]"
proof (induction indices arbitrary: st)
  case Nil
  show ?case by (rule exI [of _ "nanoid_calls st"]) simp
next
  case (Cons i indices)
  show ?case
  proof (cases "at_index mesh i")
    case None
    with Cons.IH [of st] show ?thesis by simp
  next
    case (Some p)
    let ?st1 = "st\<lparr>nanoid_calls := Suc (nanoid_calls st)\<rparr>"
    from Cons.IH [of ?st1] obtain c where c: "Suc (nanoid_calls st) \<le> c"
      and st: "snd (defaultPoints gen indices mesh ?st1) = st\<lparr>nanoid_calls := c\<rparr>"
      and ids: "map ap_id (fst (defaultPoints gen indices mesh ?st1)) = map gen [Suc (nanoid_calls st)..<c]"
      by auto
    have up: "[nanoid_calls st..<c] = nanoid_calls st # [Suc (nanoid_calls st)..<c]"
      using c by (simp add: upt_conv_Cons)
    show ?thesis
      using Some c st ids up by (intro exI [of _ c]) (simp add: nanoid_simps Let_def)
  qed
qed

lemma fallbackPoints_ids:
  "\<exists>c. nanoid_calls st \<le> c
     \<and> snd (fallbackPoints gen cx cy offsets st) = st\<lparr>nanoid_calls := c\<rparr>
     \<and> map ap_id (fst (fallbackPoints gen cx cy offsets st)) = map gen [nanoid_calls st..<c]"
proof (induction offsets arbitrary: st)
  case Nil
  show ?case by (rule exI [of _ "nanoid_calls st"]) simp
next
  case (Cons i offsets)
  let ?st1 = "st\<lparr>nanoid_calls := Suc (nanoid_calls st)\<rparr>"
  from Cons.IH [of ?st1] obtain c where c: "Suc (nanoid_calls st) \<le> c"
    and st: "snd (fallbackPoints gen cx cy offsets ?st1) = st\<lparr>nanoid_calls := c\<rparr>"
    and ids: "map ap_id (fst (fallbackPoints gen cx cy offsets ?st1)) = map gen [Suc (nanoid_calls st)..<c]"
    by auto
  have up: "[nanoid_calls st..<c] = nanoid_calls st # [Suc (nanoid_calls st)..<c]"
    using c by (simp add: upt_conv_Cons)
  show ?case
    using c st ids up by (intro exI [of _ c]) (simp add: nanoid_simps Let_def)
qed

lemma presetPoint_id: "ap_id (presetPoint gen idx newPts st) = gen (nanoid_calls st)"
  by (simp add: presetPoint_def nanoid_simps Let_def split: option.splits prod.splits)

lemma addPreset_loop_ids:
  "\<exists>c. nanoid_calls st \<le> c
     \<and> snd (addPreset_loop gen indices newPts st) = st\<lparr>nanoid_calls := c\<rparr>
     \<and> map ap_id (fst (addPreset_loop gen indices newPts st))
         = map ap_id newPts @ map gen [nanoid_calls st..<c]"
proof (induction indices arbitrary: newPts st)
  case Nil
  show ?case by (rule exI [of _ "nanoid_calls st"]) simp
next
  case (Cons idx indices)
  let ?st1 = "st\<lparr>nanoid_calls := Suc (nanoid_calls st)\<rparr>"
  define new where "new = presetPoint gen idx newPts st"
  have new: "ap_id new = gen (nanoid_calls st)"
    by (simp add: new_def presetPoint_id)
  have step: "addPreset_loop gen (idx # indices) newPts st
                 = addPreset_loop gen indices (newPts @ [new]) ?st1"
    by (simp add: new_def nanoid_simps)
  from Cons.IH [of ?st1 "newPts @ [new]"] obtain c where c: "Suc (nanoid_calls st) \<le> c"
    and st: "snd (addPreset_loop gen indices (newPts @ [new]) ?st1) = st\<lparr>nanoid_calls := c\<rparr>"
    and ids: "map ap_id (fst (addPreset_loop gen indices (newPts @ [new]) ?st1))
                = map ap_id (newPts @ [new]) @ map gen [Suc (nanoid_calls st)..<c]"
    by auto
  have up: "[nanoid_calls st..<c] = nanoid_calls st # [Suc (nanoid_calls st)..<c]"
    using c by (simp add: upt_conv_Cons)
  show ?case
    unfolding step using c st ids up new by (intro exI [of _ c]) simp
qed

text \<open>Each operation keeps the invariant.\<close>

lemma onAddPoint_ids:
  assumes "inj gen" and "ids_issued gen st"
  shows "ids_issued gen (onAddPoint gen st)"
proof -
  let ?new = "\<lparr>ap_id = gen (nanoid_calls st),
      ap_x = (case imageFit st of Some fit \<Rightarrow> width fit | None \<Rightarrow> width (stageSize st)) / 2,
      ap_y = (case imageFit st of Some fit \<Rightarrow> height fit | None \<Rightarrow> height (stageSize st)) / 2,
      ap_product = Some [], ap_dose = Some []\<rparr>"
  have "points (onAddPoint gen st) = points st @ [?new]"
    and "nanoid_calls (onAddPoint gen st) = Suc (nanoid_calls st)"
    by (simp_all add: onAddPoint_def nanoid_def)
  then show ?thesis
    using ids_issued_fresh(1) [OF assms, of "[?new]" "Suc (nanoid_calls st)" "onAddPoint gen st"]
    by simp
qed

lemma addPreset_ids:
  assumes "inj gen" and "ids_issued gen st"
  shows "ids_issued gen (addPreset gen name st)"
proof (cases "length (landmarks st) = 0")
  case True
  let ?r = "fallbackPoints gen (width (stageSize st) / 2) (height (stageSize st) / 2) [- 1, 0, 1, 2] st"
  from fallbackPoints_ids [of st gen "width (stageSize st) / 2" "height (stageSize st) / 2" "[- 1, 0, 1, 2]"]
  obtain c where c: "nanoid_calls st \<le> c" and st: "snd ?r = st\<lparr>nanoid_calls := c\<rparr>"
    and ids: "map ap_id (fst ?r) = map gen [nanoid_calls st..<c]"
    by blast
  have "addPreset gen name st = (snd ?r)\<lparr>points := points (snd ?r) @ fst ?r\<rparr>"
    using True by (simp add: addPreset_def split: prod.splits)
  then have "points (addPreset gen name st) = points st @ fst ?r"
    and "nanoid_calls (addPreset gen name st) = c"
    using st by simp_all
  then show ?thesis
    using ids_issued_fresh(1) [OF assms ids c] by simp
next
  case False
  let ?r = "addPreset_loop gen (presetTemplates name) [] st"
  from addPreset_loop_ids [of st gen "presetTemplates name" "[]"]
  obtain c where c: "nanoid_calls st \<le> c" and st: "snd ?r = st\<lparr>nanoid_calls := c\<rparr>"
    and ids: "map ap_id (fst ?r) = map gen [nanoid_calls st..<c]"
    by auto
  have "addPreset gen name st = (snd ?r)\<lparr>points := points (snd ?r) @ fst ?r\<rparr>"
    using False by (simp add: addPreset_def split: prod.splits)
  then have "points (addPreset gen name st) = points st @ fst ?r"
    and "nanoid_calls (addPreset gen name st) = c"
    using st by simp_all
  then show ?thesis
    using ids_issued_fresh(1) [OF assms ids c] by simp
qed

text \<open>
  What a run of the detection does to the cells: nothing, or it replaces the mesh, or it
  replaces the mesh and puts the default markers, made from the given indices of a mesh
  that is not empty, in the place of the marker list, and that only when the list it
  had seen was empty.
\<close>

lemma detectOnce_try_cells:
  "same_cells st (fst (detectOnce_try gen env seen st))
   \<or> (\<exists>mesh. snd (detectOnce_try gen env seen st) = None
         \<and> same_cells (st\<lparr>landmarks := mesh\<rparr>) (fst (detectOnce_try gen env seen st)))
   \<or> (\<exists>mesh st2. snd (detectOnce_try gen env seen st) = None \<and> seen = [] \<and> mesh \<noteq> []
         \<and> same_cells st st2
         \<and> fst (detectOnce_try gen env seen st)
             = (snd (defaultPoints gen lipsIndices mesh (st2\<lparr>landmarks := mesh\<rparr>)))
                 \<lparr>points := fst (defaultPoints gen lipsIndices mesh (st2\<lparr>landmarks := mesh\<rparr>))\<rparr>)"
proof -
  obtain predictions lastErr k st1 where
    casc: "estimateCascade env st = ((predictions, lastErr, k), st1)"
    by (metis prod.exhaust)
  have c1: "same_cells st st1"
    using estimateCascade_cells [of st env] casc by simp
  show ?thesis
  proof (cases predictions)
    case None
    then show ?thesis
      using casc c1 by (simp add: detectOnce_try_def same_cells_log')
  next
    case (Some preds)
    note preds = this
    show ?thesis
    proof (cases "cancelled_after env k")
      case True
      then show ?thesis using casc c1 preds by (simp add: detectOnce_try_def)
    next
      case False
      note live = this
      show ?thesis
      proof (cases preds)
        case Nil
        have "same_cells (st\<lparr>landmarks := []\<rparr>) (st1\<lparr>landmarks := []\<rparr>)"
          using c1 by (simp add: same_cells_def)
        moreover have "detectOnce_try gen env seen st = (st1\<lparr>landmarks := []\<rparr>, None)"
          using casc preds live Nil by (simp add: detectOnce_try_def)
        ultimately have "snd (detectOnce_try gen env seen st) = None
            \<and> same_cells (st\<lparr>landmarks := []\<rparr>) (fst (detectOnce_try gen env seen st))"
          by simp
        then show ?thesis by blast
      next
        case (Cons face rest)
        obtain r st2 where ex: "extractMesh face st1 = (r, st2)" by (cases "extractMesh face st1")
        have c2: "same_cells st st2"
          using extractMesh_cells [of st1 face] ex c1 by (auto intro: same_cells_trans)
        show ?thesis
        proof (cases r)
          case (Inl e)
          then show ?thesis
            using casc preds live Cons ex c2 by (simp add: detectOnce_try_def)
        next
          case (Inr mesh)
          show ?thesis
          proof (cases "length seen = 0 \<and> length mesh > 0")
            case True
            let ?D = "defaultPoints gen lipsIndices mesh (st2\<lparr>landmarks := mesh\<rparr>)"
            have "detectOnce_try gen env seen st = ((snd ?D)\<lparr>points := fst ?D\<rparr>, None)"
              using casc preds live Cons ex Inr True
              by (simp add: detectOnce_try_def Let_def split: prod.splits)
            then have "snd (detectOnce_try gen env seen st) = None \<and> seen = [] \<and> mesh \<noteq> []
                \<and> same_cells st st2
                \<and> fst (detectOnce_try gen env seen st) = (snd ?D)\<lparr>points := fst ?D\<rparr>"
              using True c2 by simp
            then show ?thesis by blast
          next
            case False
            have "same_cells (st\<lparr>landmarks := mesh\<rparr>) (st2\<lparr>landmarks := mesh\<rparr>)"
              using c2 by (simp add: same_cells_def)
            moreover have "detectOnce_try gen env seen st = (st2\<lparr>landmarks := mesh\<rparr>, None)"
              using casc preds live Cons ex Inr False
              by (auto simp: detectOnce_try_def Let_def)
            ultimately have "snd (detectOnce_try gen env seen st) = None
                \<and> same_cells (st\<lparr>landmarks := mesh\<rparr>) (fst (detectOnce_try gen env seen st))"
              by simp
            then show ?thesis by blast
          qed
        qed
      qed
    qed
  qed
qed

lemma detectOnce_cells:
  "same_cells (fst (detectOnce_try gen env seen st)) (detectOnce gen env seen st)"
  by (simp add: detectOnce_def same_cells_refl same_cells_log split: prod.splits option.splits)

lemma detectOnce_ids:
  assumes "inj gen" and "ids_issued gen st"
  shows "ids_issued gen (detectOnce gen env seen st)"
proof -
  let ?t = "fst (detectOnce_try gen env seen st)"
  have "ids_issued gen ?t"
    using detectOnce_try_cells [of st gen env seen]
  proof (elim disjE exE conjE)
    assume "same_cells st ?t"
    then show ?thesis using assms(2) by (simp add: ids_issued_cells)
  next
    fix mesh
    assume "same_cells (st\<lparr>landmarks := mesh\<rparr>) ?t"
    then have "ids_issued gen ?t = ids_issued gen (st\<lparr>landmarks := mesh\<rparr>)"
      by (rule ids_issued_cells)
    then show ?thesis using assms(2) by (simp add: ids_issued_def)
  next
    fix mesh :: "Landmark list" and st2 :: State
    let ?s = "st2\<lparr>landmarks := mesh\<rparr>"
    assume c: "same_cells st st2"
      and t: "?t = (snd (defaultPoints gen lipsIndices mesh ?s))
                     \<lparr>points := fst (defaultPoints gen lipsIndices mesh ?s)\<rparr>"
    from defaultPoints_ids [of ?s gen lipsIndices mesh]
    obtain c' where c': "nanoid_calls ?s \<le> c'"
      and s: "snd (defaultPoints gen lipsIndices mesh ?s) = ?s\<lparr>nanoid_calls := c'\<rparr>"
      and ids: "map ap_id (fst (defaultPoints gen lipsIndices mesh ?s)) = map gen [nanoid_calls ?s..<c']"
      by blast
    have "ids_issued gen ?s"
      using c assms(2) by (simp add: ids_issued_def same_cells_def)
    moreover have "nanoid_calls ?t = c'" "points ?t = fst (defaultPoints gen lipsIndices mesh ?s)"
      using t s by simp_all
    ultimately show ?thesis
      using ids_issued_fresh(2) [OF assms(1) _ ids c'] by blast
  qed
  then show ?thesis
    using detectOnce_cells [of gen env seen st] by (simp add: ids_issued_cells)
qed

lemma updatePointMeta_ids:
  assumes "ids_issued gen st"
  shows "ids_issued gen (updatePointMeta pid data st)"
proof -
  have "map ap_id (points (updatePointMeta pid data st)) = map ap_id (points st)"
    by (simp add: updatePointMeta_def spread_def)
  moreover have "nanoid_calls (updatePointMeta pid data st) = nanoid_calls st"
    by (simp add: updatePointMeta_def)
  ultimately show ?thesis using assms by (simp add: ids_issued_def)
qed

lemma removePoint_ids:
  assumes "ids_issued gen st"
  shows "ids_issued gen (removePoint pid st)"
proof -
  have "map ap_id (points (removePoint pid st)) = filter (\<lambda>i. i \<noteq> pid) (map ap_id (points st))"
    by (simp add: removePoint_def filter_map comp_def)
  moreover have "nanoid_calls (removePoint pid st) = nanoid_calls st"
    by (simp add: removePoint_def)
  ultimately show ?thesis using assms by (auto simp: ids_issued_def)
qed

lemma snap_ids:
  assumes "ids_issued gen st" and "snapPointToNearestLandmark pid ra st = Inr st'"
  shows "ids_issued gen st'"
  using snap_cases [of pid ra st] assms by (auto simp: updatePointMeta_ids)

lemma setup_detector_points:
  "points (setup_detector env st) = points st
   \<and> nanoid_calls (setup_detector env st) = nanoid_calls st"
  by (simp add: setup_detector_def setup_try_def setup_legacy_def console_log_def call_def Let_def
        split: prod.splits option.splits Outcome.splits)

lemma perform_ids:
  assumes "inj gen" and "ids_issued gen st"
  shows "ids_issued gen (perform gen operation st)"
proof (cases operation)
  case ManualAdd
  then show ?thesis using assms by (simp add: onAddPoint_ids)
next
  case (PresetAdd name)
  then show ?thesis using assms by (simp add: addPreset_ids)
next
  case (Detection env seen)
  then show ?thesis using assms by (simp add: detectOnce_ids)
next
  case (UpdateMeta pid data)
  then show ?thesis using assms by (simp add: updatePointMeta_ids)
next
  case (Snap pid radius)
  then show ?thesis using assms by (auto split: sum.splits intro: snap_ids)
next
  case (Remove pid)
  then show ?thesis using assms by (simp add: removePoint_ids)
next
  case NewFile
  then show ?thesis by (simp add: onFileChange_def ids_issued_def)
next
  case (ImageLoaded w h)
  then show ?thesis using assms by (simp add: onImageLoad_def ids_issued_def Let_def)
next
  case (DetectorSetup env)
  then show ?thesis using assms setup_detector_points [of env st] by (simp add: ids_issued_def)
qed

lemma run_ids:
  assumes "inj gen" and "ids_issued gen st"
  shows "ids_issued gen (run gen ops st)"
  using assms(2)
proof (induction ops arbitrary: st)
  case Nil
  then show ?case by simp
next
  case (Cons operation ops)
  then show ?case using perform_ids [OF assms(1)] by simp
qed

text \<open>
  C2. When \<^verbatim>\<open>nanoid()\<close> never returns an identifier twice, the identifiers of the
  marker list are pairwise distinct after every sequence of operations (manual add,
  preset add, a finished detection, drag and label edits, snap, remove, new file, image
  load, detector set-up) that starts with an empty marker list.
\<close>

theorem marker_ids_unique:
  assumes "inj gen" and "points st = []"
  shows "distinct (map ap_id (points (run gen ops st)))"
proof -
  have "ids_issued gen st" using assms(2) by (simp add: ids_issued_def)
  then have "ids_issued gen (run gen ops st)" by (rule run_ids [OF assms(1)])
  then show ?thesis by (simp add: ids_issued_def)
qed

lemma inj_example_gen: "inj example_gen"
  by (simp add: inj_def example_gen_def)

text \<open>
  Five markers are made by a manual add and a preset without a mesh, one is removed and
  one more is added: the five identifiers that remain are distinct.
\<close>

theorem marker_ids_unique_witness:
  "inj example_gen \<and> points initial_state = []
   \<and> map ap_id (points (run example_gen [ManualAdd, PresetAdd lips, Remove ''ii'', ManualAdd]
                           initial_state))
       = ['''', ''i'', ''iii'', ''iiii'', ''iiiii'']
   \<and> distinct (map ap_id (points (run example_gen [ManualAdd, PresetAdd lips, Remove ''ii'', ManualAdd]
                           initial_state)))"
proof -
  have 1: "points initial_state = []" by (simp add: initial_state_def)
  have 2: "map ap_id (points (run example_gen [ManualAdd, PresetAdd lips, Remove ''ii'', ManualAdd]
                           initial_state))
       = ['''', ''i'', ''iii'', ''iiii'', ''iiiii'']"
    by (simp add: initial_state_def onAddPoint_def addPreset_def removePoint_def nanoid_def
          example_gen_def Let_def numeral_eq_Suc)
  show ?thesis
    using inj_example_gen 1 2
      marker_ids_unique [OF inj_example_gen 1,
        of "[ManualAdd, PresetAdd lips, Remove ''ii'', ManualAdd]"]
    by simp
qed

section \<open>Properties of the detector set-up\<close>

text \<open>A set-up that throws has changed no cell; it has only made calls and logged.\<close>

lemma setup_try_throws:
  assumes "snd (setup_try env st) = Some e"
  shows "same_cells st (fst (setup_try env st))"
  using assms
  by (auto simp: setup_try_def setup_legacy_def Let_def same_cells_def console_log_def call_def
        split: Outcome.splits if_splits)

text \<open>
  C6, as amended. Once \<^verbatim>\<open>tf.setBackend\<close> and \<^verbatim>\<open>tf.ready\<close> have resolved (and
  leaving aside a \<^verbatim>\<open>dispose()\<close> that throws), the set-up calls
  \<^verbatim>\<open>createDetector\<close> first and the legacy \<^verbatim>\<open>load()\<close> exactly when
  \<^verbatim>\<open>createDetector\<close> rejects; the detector cell is set to the detector of the attempt
  that resolves, provided the component is still mounted when it resolves, and otherwise
  keeps its value; when both attempts reject, no cell changes and the console gets the
  warning and the two errors.
\<close>

theorem setup_detector_cascade:
  assumes "setBackend_result env = Resolves ()" and "ready_result env = Resolves ()"
    and "dispose_result env = Resolves ()"
  shows "calls (setup_detector env st)
           = calls st @ [Call_setBackend, Call_ready, Call_createDetector] @ calls_after_create env
       \<and> (Call_load \<in> set (calls_after_create env) \<longleftrightarrow> (\<exists>e. createDetector_result env = Rejects e))
       \<and> detector (setup_detector env st)
           = (case createDetector_result env of
                Resolves created \<Rightarrow> if mounted_after_create env then Some created else detector st
              | Rejects _ \<Rightarrow>
                  (case load_result env of
                     Resolves created \<Rightarrow> if mounted_after_load env then Some created else detector st
                   | Rejects _ \<Rightarrow> detector st))
       \<and> (\<forall>errCreate errLegacy.
             createDetector_result env = Rejects errCreate \<and> load_result env = Rejects errLegacy \<longrightarrow>
               same_cells st (setup_detector env st)
               \<and> console (setup_detector env st)
                   = console st @
                     [ConsoleWarn ''createDetector failed; trying legacy load():'' (Some errCreate),
                      ConsoleError ''Both createDetector and legacy load() failed:'' (Some errLegacy),
                      ConsoleError ''Detector setup error:'' (Some errLegacy)])"
  using assms
  by (auto simp: setup_detector_def setup_try_def setup_legacy_def calls_after_create_def Let_def
        same_cells_def console_log_def call_def
        split: Outcome.splits)

text \<open>
  The legacy attempt after a failed first one, and a run in which both fail: the cells
  keep their values and the three messages are logged.
\<close>

theorem setup_detector_cascade_witness:
  "setBackend_result legacy_setup_env = Resolves () \<and> ready_result legacy_setup_env = Resolves ()
   \<and> dispose_result legacy_setup_env = Resolves ()
   \<and> calls (setup_detector legacy_setup_env initial_state)
       = [Call_setBackend, Call_ready, Call_createDetector, Call_load]
   \<and> detector (setup_detector legacy_setup_env initial_state) = Some example_detector
   \<and> createDetector_result failing_setup_env = Rejects (LibError ''no tfjs runtime'')
   \<and> load_result failing_setup_env = Rejects (LibError ''no legacy package'')
   \<and> detector (setup_detector failing_setup_env initial_state) = None
   \<and> same_cells initial_state (setup_detector failing_setup_env initial_state)
   \<and> length (console (setup_detector failing_setup_env initial_state)) = 3"
  using setup_detector_cascade [of legacy_setup_env initial_state]
    setup_detector_cascade [of failing_setup_env initial_state]
  by (simp add: legacy_setup_env_def failing_setup_env_def initial_state_def
        calls_after_create_def)

text \<open>
  C6 as the specification states it fails when the component is unmounted while
  \<^verbatim>\<open>createDetector\<close> is awaited: the attempt succeeds and the detector cell is not
  set (the detector is disposed of instead).
\<close>

theorem setup_detector_unmounted_counterexample:
  "createDetector_result unmounted_setup_env = Resolves example_detector
   \<and> detector (setup_detector unmounted_setup_env initial_state) = None
   \<and> calls (setup_detector unmounted_setup_env initial_state)
       = [Call_setBackend, Call_ready, Call_createDetector, Call_dispose]"
  by (simp add: unmounted_setup_env_def initial_state_def example_detector_def
        setup_detector_def setup_try_def call_def Let_def)

section \<open>Properties of the detection\<close>

lemma estimateCascade_awaited:
  "snd (snd (fst (estimateCascade env st))) = awaited env"
  by (simp add: estimateCascade_def awaited_def Let_def split: Outcome.splits)

lemma estimateCascade_effects:
  "snd (estimateCascade env st)
     = st\<lparr>calls := calls st @ map Call_estimateFaces [1..<Suc (awaited env)]\<rparr>"
  by (simp add: estimateCascade_def awaited_def call_def Let_def eval_nat_numeral
        split: Outcome.splits)

text \<open>A detection that throws has changed no cell, and has logged at most one line.\<close>

lemma detectOnce_try_throws:
  assumes "snd (detectOnce_try gen env seen st) = Some e"
  shows "same_cells st (fst (detectOnce_try gen env seen st))"
    and "console (fst (detectOnce_try gen env seen st))
           = console st @ (if fst (fst (estimateCascade env st)) = None
                           then [ConsoleError ''All estimateFaces attempts failed:'' (Some e)]
                           else [])"
proof -
  show "same_cells st (fst (detectOnce_try gen env seen st))"
    using detectOnce_try_cells [of st gen env seen] assms by auto
  obtain predictions lastErr k st1 where
    casc: "estimateCascade env st = ((predictions, lastErr, k), st1)"
    by (metis prod.exhaust)
  have st1: "console st1 = console st"
    using estimateCascade_effects [of env st] casc by simp
  show "console (fst (detectOnce_try gen env seen st))
           = console st @ (if fst (fst (estimateCascade env st)) = None
                           then [ConsoleError ''All estimateFaces attempts failed:'' (Some e)]
                           else [])"
  proof (cases predictions)
    case None
    then show ?thesis
      using casc st1 assms by (simp add: detectOnce_try_def console_log_def)
  next
    case (Some preds)
    show ?thesis
    proof (cases preds)
      case Nil
      then show ?thesis
        using casc Some assms by (simp add: detectOnce_try_def split: if_splits)
    next
      case (Cons face rest)
      obtain r st2 where ex: "extractMesh face st1 = (r, st2)" by (cases "extractMesh face st1")
      show ?thesis
      proof (cases r)
        case (Inl e')
        then have "st2 = st1"
          using ex by (auto simp: extractMesh_def split: option.splits)
        then show ?thesis
          using casc Some Cons ex Inl st1 assms
          by (simp add: detectOnce_try_def split: if_splits)
      next
        case (Inr mesh)
        then show ?thesis
          using casc Some Cons ex assms
          by (simp add: detectOnce_try_def Let_def split: if_splits prod.splits)
      qed
    qed
  qed
qed

text \<open>The code paths that throw.\<close>

lemma setup_try_throwing_paths:
  "(\<forall>e. setBackend_result env = Rejects e \<longrightarrow> snd (setup_try env st) = Some e)
   \<and> (\<forall>e. setBackend_result env = Resolves () \<and> ready_result env = Rejects e \<longrightarrow>
          snd (setup_try env st) = Some e)
   \<and> (\<forall>e1 e2. setBackend_result env = Resolves () \<and> ready_result env = Resolves ()
          \<and> createDetector_result env = Rejects e1 \<and> load_result env = Rejects e2 \<longrightarrow>
          snd (setup_try env st) = Some e2)"
  by (simp add: setup_try_def setup_legacy_def Let_def)

lemma detectOnce_try_throwing_paths:
  "(\<forall>e1 e2 e3. estimateFaces1 env = Rejects e1 \<and> estimateFaces2 env = Rejects e2
        \<and> estimateFaces3 env = Rejects e3 \<longrightarrow>
        snd (detectOnce_try gen env seen st) = Some e3)
   \<and> (\<forall>face rest lastErr k st1 e.
        estimateCascade env st = ((Some (face # rest), lastErr, k), st1)
        \<and> \<not> cancelled_after env k \<and> fst (extractMesh face st1) = Inl e \<longrightarrow>
        snd (detectOnce_try gen env seen st) = Some e)"
  by (auto simp: detectOnce_try_def estimateCascade_def Let_def split: prod.splits)

text \<open>
  C1. Whenever the detector set-up or the detection ends by an exception, the
  exception is caught and logged, and every cell of the component (the mesh and the
  marker list among them) has the value it had when the operation started. The set-up
  throws when \<^verbatim>\<open>tf.setBackend\<close> or \<^verbatim>\<open>tf.ready\<close> rejects and when both
  \<^verbatim>\<open>createDetector\<close> and \<^verbatim>\<open>load\<close> reject; the detection throws when all three
  call shapes of \<^verbatim>\<open>estimateFaces\<close> reject and when reading the prediction throws.
  After a new file the mesh and the marker list are empty, and so they are after a
  failure that follows it.
\<close>

theorem failures_only_logged:
  "(\<forall>e. snd (setup_try senv st) = Some e \<longrightarrow>
        same_cells st (setup_detector senv st)
        \<and> landmarks (setup_detector senv st) = landmarks st
        \<and> points (setup_detector senv st) = points st
        \<and> console (setup_detector senv st)
            = console (fst (setup_try senv st)) @ [ConsoleError ''Detector setup error:'' (Some e)])
   \<and> (\<forall>e. snd (detectOnce_try gen denv seen st) = Some e \<longrightarrow>
        same_cells st (detectOnce gen denv seen st)
        \<and> landmarks (detectOnce gen denv seen st) = landmarks st
        \<and> points (detectOnce gen denv seen st) = points st
        \<and> console (detectOnce gen denv seen st)
            = console st
              @ (if fst (fst (estimateCascade denv st)) = None
                 then [ConsoleError ''All estimateFaces attempts failed:'' (Some e)] else [])
              @ [ConsoleError ''detectOnce error:'' (Some e)])
   \<and> (\<forall>e. setBackend_result senv = Rejects e \<longrightarrow> snd (setup_try senv st) = Some e)
   \<and> (\<forall>e. setBackend_result senv = Resolves () \<and> ready_result senv = Rejects e \<longrightarrow>
          snd (setup_try senv st) = Some e)
   \<and> (\<forall>e1 e2. setBackend_result senv = Resolves () \<and> ready_result senv = Resolves ()
          \<and> createDetector_result senv = Rejects e1 \<and> load_result senv = Rejects e2 \<longrightarrow>
          snd (setup_try senv st) = Some e2)
   \<and> (\<forall>e1 e2 e3. estimateFaces1 denv = Rejects e1 \<and> estimateFaces2 denv = Rejects e2
        \<and> estimateFaces3 denv = Rejects e3 \<longrightarrow>
        snd (detectOnce_try gen denv seen st) = Some e3)
   \<and> (\<forall>face rest lastErr k st1 e.
        estimateCascade denv st = ((Some (face # rest), lastErr, k), st1)
        \<and> \<not> cancelled_after denv k \<and> fst (extractMesh face st1) = Inl e \<longrightarrow>
        snd (detectOnce_try gen denv seen st) = Some e)
   \<and> landmarks (onFileChange st) = [] \<and> points (onFileChange st) = []"
proof -
  have 1: "same_cells st (setup_detector senv st)
        \<and> landmarks (setup_detector senv st) = landmarks st
        \<and> points (setup_detector senv st) = points st
        \<and> console (setup_detector senv st)
            = console (fst (setup_try senv st)) @ [ConsoleError ''Detector setup error:'' (Some e)]"
    if "snd (setup_try senv st) = Some e" for e
  proof -
    have "setup_detector senv st
            = console_log (ConsoleError ''Detector setup error:'' (Some e)) (fst (setup_try senv st))"
      using that by (cases "setup_try senv st") (simp add: setup_detector_def)
    then show ?thesis
      using setup_try_throws [OF that] by (simp add: same_cells_def console_log_def)
  qed
  have 2: "same_cells st (detectOnce gen denv seen st)
        \<and> landmarks (detectOnce gen denv seen st) = landmarks st
        \<and> points (detectOnce gen denv seen st) = points st
        \<and> console (detectOnce gen denv seen st)
            = console st
              @ (if fst (fst (estimateCascade denv st)) = None
                 then [ConsoleError ''All estimateFaces attempts failed:'' (Some e)] else [])
              @ [ConsoleError ''detectOnce error:'' (Some e)]"
    if "snd (detectOnce_try gen denv seen st) = Some e" for e
  proof -
    have "detectOnce gen denv seen st
            = console_log (ConsoleError ''detectOnce error:'' (Some e))
                (fst (detectOnce_try gen denv seen st))"
      using that by (cases "detectOnce_try gen denv seen st") (simp add: detectOnce_def)
    then show ?thesis
      using detectOnce_try_throws [OF that] by (simp add: same_cells_def console_log_def)
  qed
  have 3: "landmarks (onFileChange st) = [] \<and> points (onFileChange st) = []"
    by (simp add: onFileChange_def)
  from 1 have 1: "\<forall>e. snd (setup_try senv st) = Some e \<longrightarrow>
        same_cells st (setup_detector senv st)
        \<and> landmarks (setup_detector senv st) = landmarks st
        \<and> points (setup_detector senv st) = points st
        \<and> console (setup_detector senv st)
            = console (fst (setup_try senv st)) @ [ConsoleError ''Detector setup error:'' (Some e)]"
    by (intro allI impI)
  from 2 have 2: "\<forall>e. snd (detectOnce_try gen denv seen st) = Some e \<longrightarrow>
        same_cells st (detectOnce gen denv seen st)
        \<and> landmarks (detectOnce gen denv seen st) = landmarks st
        \<and> points (detectOnce gen denv seen st) = points st
        \<and> console (detectOnce gen denv seen st)
            = console st
              @ (if fst (fst (estimateCascade denv st)) = None
                 then [ConsoleError ''All estimateFaces attempts failed:'' (Some e)] else [])
              @ [ConsoleError ''detectOnce error:'' (Some e)]"
    by (intro allI impI)
  show ?thesis
    using 1 2 3 setup_try_throwing_paths [of senv st]
      detectOnce_try_throwing_paths [of denv gen seen st]
    by (elim conjE, intro conjI) assumption+
qed

text \<open>
  With two markers and a mesh of three landmarks in place: a set-up whose two attempts
  fail, a detection whose three call shapes fail, and a detection that chokes on a
  \<^verbatim>\<open>null\<close> keypoint all leave the markers and the mesh as they were.
\<close>

theorem failures_only_logged_witness:
  "snd (setup_try failing_setup_env example_state) = Some (LibError ''no legacy package'')
   \<and> points (setup_detector failing_setup_env example_state) = points example_state
   \<and> landmarks (setup_detector failing_setup_env example_state) = landmarks example_state
   \<and> snd (detectOnce_try example_gen failing_detect_env [] example_state) = Some (LibError ''shape 3'')
   \<and> points (detectOnce example_gen failing_detect_env [] example_state) = points example_state
   \<and> landmarks (detectOnce example_gen failing_detect_env [] example_state) = landmarks example_state
   \<and> console (detectOnce example_gen failing_detect_env [] example_state)
       = [ConsoleError ''All estimateFaces attempts failed:'' (Some (LibError ''shape 3'')),
          ConsoleError ''detectOnce error:'' (Some (LibError ''shape 3''))]
   \<and> snd (detectOnce_try example_gen broken_detect_env [] example_state) = Some TypeError
   \<and> points (detectOnce example_gen broken_detect_env [] example_state) = points example_state
   \<and> landmarks (detectOnce example_gen broken_detect_env [] example_state) = landmarks example_state"
proof -
  have 1: "snd (setup_try failing_setup_env example_state) = Some (LibError ''no legacy package'')"
    by (simp add: setup_try_def setup_legacy_def failing_setup_env_def Let_def)
  have 2: "snd (detectOnce_try example_gen failing_detect_env [] example_state)
             = Some (LibError ''shape 3'')"
    "fst (fst (estimateCascade failing_detect_env example_state)) = None"
    by (simp_all add: detectOnce_try_def estimateCascade_def failing_detect_env_def Let_def)
  have 3: "snd (detectOnce_try example_gen broken_detect_env [] example_state) = Some TypeError"
    by (simp add: detectOnce_try_def estimateCascade_def broken_detect_env_def broken_face_def
          extractMesh_def cancelled_after_def Let_def)
  have c: "console example_state = []"
    by (simp add: example_state_def initial_state_def)
  show ?thesis
    using 1 2 3 c
      failures_only_logged [of failing_setup_env example_state example_gen failing_detect_env "[]"]
      failures_only_logged [of failing_setup_env example_state example_gen broken_detect_env "[]"]
    by simp
qed

text \<open>
  C5, as amended. The flag \<^verbatim>\<open>cancelled\<close> is read once, after the last awaited call of
  \<^verbatim>\<open>estimateFaces\<close> and before the first state update. So when the effect is
  cancelled during any of the calls the run awaits, the run updates no cell: the mesh
  and the marker list keep their values. The calls themselves are not skipped: every
  call shape up to the first that resolves is tried.
\<close>

theorem cancelled_detection_updates_nothing:
  assumes "cancelled_during env = Some c" and "c \<le> awaited env"
  shows "same_cells st (detectOnce gen env seen st)
       \<and> landmarks (detectOnce gen env seen st) = landmarks st
       \<and> points (detectOnce gen env seen st) = points st
       \<and> calls (detectOnce gen env seen st)
           = calls st @ map Call_estimateFaces [1..<Suc (awaited env)]"
proof -
  obtain predictions lastErr k st1 where
    casc: "estimateCascade env st = ((predictions, lastErr, k), st1)"
    by (metis prod.exhaust)
  have k: "k = awaited env"
    using estimateCascade_awaited [of env st] casc by simp
  have st1: "st1 = st\<lparr>calls := calls st @ map Call_estimateFaces [1..<Suc (awaited env)]\<rparr>"
    using estimateCascade_effects [of env st] casc by simp
  have cancelled: "cancelled_after env k"
    using assms k by (simp add: cancelled_after_def)
  have "detectOnce gen env seen st = st1
        \<or> (\<exists>entries. detectOnce gen env seen st = st1\<lparr>console := console st1 @ entries\<rparr>)"
    using casc cancelled
    by (cases predictions) (auto simp: detectOnce_def detectOnce_try_def console_log_def)
  then show ?thesis
    using st1 by (auto simp: same_cells_def)
qed

text \<open>
  The first call shape fails while the effect is cancelled, the second one returns a
  face: the mesh and the two markers stay.
\<close>

theorem cancelled_detection_updates_nothing_witness:
  "cancelled_during cancelled_detect_env = Some 1 \<and> 1 \<le> awaited cancelled_detect_env
   \<and> landmarks (detectOnce example_gen cancelled_detect_env [] example_state)
       = landmarks example_state
   \<and> points (detectOnce example_gen cancelled_detect_env [] example_state)
       = points example_state"
  using cancelled_detection_updates_nothing
          [of cancelled_detect_env 1 example_state example_gen "[]"]
  by (simp add: cancelled_detect_env_def awaited_def)

text \<open>
  C5 as the specification states it fails: the flag is not read after each awaited
  call. In the same run the second call of \<^verbatim>\<open>estimateFaces\<close> is made although the
  effect was cancelled during the first one.
\<close>

theorem cancelled_detection_still_calls_counterexample:
  "cancelled_during cancelled_detect_env = Some 1
   \<and> cancelled_after cancelled_detect_env 1
   \<and> calls (detectOnce example_gen cancelled_detect_env [] initial_state)
       = [Call_estimateFaces 1, Call_estimateFaces 2]"
  by (simp add: cancelled_detect_env_def cancelled_after_def initial_state_def
        detectOnce_def detectOnce_try_def estimateCascade_def call_def Let_def)

section \<open>Properties of the default markers\<close>

text \<open>
  The default markers: one for each of the given indices that the mesh has, in their
  order, at the landmark of the index, with the identifiers of the next calls of
  \<^verbatim>\<open>nanoid()\<close> and with empty labels.
\<close>

lemma defaultPoints_eq:
  "fst (defaultPoints gen indices mesh st)
     = map (\<lambda>(j, i). marker_at (gen (nanoid_calls st + j)) (mesh ! i))
         (enumerate 0 (filter (\<lambda>i. i < length mesh) indices))"
proof (induction indices arbitrary: st)
  case Nil
  then show ?case by simp
next
  case (Cons i indices)
  show ?case
  proof (cases "i < length mesh")
    case False
    then show ?thesis using Cons.IH [of st] by (simp add: at_index_def)
  next
    case True
    let ?st1 = "st\<lparr>nanoid_calls := Suc (nanoid_calls st)\<rparr>"
    have "enumerate (Suc 0) (filter (\<lambda>i. i < length mesh) indices)
            = map (apfst Suc) (enumerate 0 (filter (\<lambda>i. i < length mesh) indices))"
      by (rule enumerate_Suc_eq)
    then show ?thesis
      using True Cons.IH [of ?st1]
      by (simp add: at_index_def nanoid_def marker_at_def Let_def case_prod_beta comp_def)
  qed
qed

lemma defaultPoints_length:
  "length (fst (defaultPoints gen lipsIndices mesh st)) \<le> 4"
proof -
  have "length (fst (defaultPoints gen lipsIndices mesh st))
          = length (filter (\<lambda>i. i < length mesh) lipsIndices)"
    by (simp add: defaultPoints_eq)
  also have "\<dots> \<le> length lipsIndices"
    by (rule length_filter_le)
  also have "\<dots> = 4" by (simp add: lipsIndices_def)
  finally show ?thesis .
qed

text \<open>
  What a detection that finds a face with a mesh does, when it is not cancelled: the
  mesh replaces the landmarks, and the default markers replace the current marker list
  exactly when the list the run had closed over is empty, whatever the current list is.
\<close>

lemma detectOnce_populates:
  assumes "estimateCascade env st = ((Some (face # rest), lastErr, k), st1)"
    and "\<not> cancelled_after env k"
    and "extractMesh face st1 = (Inr mesh, st2)" and "mesh \<noteq> []"
  shows "landmarks (detectOnce gen env seen st) = mesh"
    and "points (detectOnce gen env seen st)
           = (if seen = []
              then map (\<lambda>(j, i). marker_at (gen (nanoid_calls st + j)) (mesh ! i))
                     (enumerate 0 (filter (\<lambda>i. i < length mesh) lipsIndices))
              else points st)"
proof -
  have c: "same_cells st st2"
    using estimateCascade_cells [of st env] extractMesh_cells [of st1 face] assms(1,3)
    by (auto intro: same_cells_trans)
  let ?s = "st2\<lparr>landmarks := mesh\<rparr>"
  from defaultPoints_ids [of ?s gen lipsIndices mesh]
  obtain c' where s: "snd (defaultPoints gen lipsIndices mesh ?s) = ?s\<lparr>nanoid_calls := c'\<rparr>"
    by blast
  have run: "detectOnce gen env seen st
               = (if seen = []
                  then (snd (defaultPoints gen lipsIndices mesh ?s))
                         \<lparr>points := fst (defaultPoints gen lipsIndices mesh ?s)\<rparr>
                  else ?s)"
    using assms by (simp add: detectOnce_def detectOnce_try_def Let_def split: prod.splits)
  show "landmarks (detectOnce gen env seen st) = mesh"
    unfolding run using s by simp
  show "points (detectOnce gen env seen st)
           = (if seen = []
              then map (\<lambda>(j, i). marker_at (gen (nanoid_calls st + j)) (mesh ! i))
                     (enumerate 0 (filter (\<lambda>i. i < length mesh) lipsIndices))
              else points st)"
    unfolding run using c by (simp add: defaultPoints_eq same_cells_def)
qed

text \<open>
  Without anything happening while the detection waits, the list the run has closed over
  is the current one: the default markers are made exactly when there is no marker.
\<close>

lemma detectionEffect_populates:
  assumes "detector st \<noteq> None" and "imgEl st" and "imageFit st \<noteq> None"
    and "estimateCascade env st = ((Some (face # rest), lastErr, k), st1)"
    and "\<not> cancelled_after env k"
    and "extractMesh face st1 = (Inr mesh, st2)" and "mesh \<noteq> []"
  shows "points (detectionEffect gen env st)
           = (if points st = []
              then map (\<lambda>(j, i). marker_at (gen (nanoid_calls st + j)) (mesh ! i))
                     (enumerate 0 (filter (\<lambda>i. i < length mesh) lipsIndices))
              else points st)"
proof -
  have "detectionEffect gen env st = detectOnce gen env (points st) st"
    using assms(1-3) by (auto simp: detectionEffect_def)
  then show ?thesis
    using detectOnce_populates(2) [OF assms(4-7), of gen "points st"] by simp
qed

text \<open>
  C7 on two runs in which the marker list changes while the detection waits. In the
  first the run had closed over an empty list and the user has added two markers since:
  the default markers replace them, although the list was not empty. In the second the
  run had closed over two markers and the user has removed them since: no default
  marker is made, although the list is empty.
\<close>

theorem detection_populates_by_stale_list:
  "points example_state \<noteq> []
   \<and> points (detectOnce example_gen good_detect_env [] example_state)
       = [marker_at '''' \<lparr>lm0 = 13, lm1 = 26, lm2 = None\<rparr>,
          marker_at ''i'' \<lparr>lm0 = 14, lm1 = 28, lm2 = None\<rparr>]
   \<and> points initial_state = []
   \<and> landmarks (detectOnce example_gen good_detect_env (points example_state) initial_state)
       = example_mesh
   \<and> points (detectOnce example_gen good_detect_env (points example_state) initial_state) = []"
  by (simp add: example_state_def initial_state_def good_detect_env_def example_face_def
        example_mesh_def example_gen_def detectOnce_def detectOnce_try_def estimateCascade_def
        extractMesh_def cancelled_after_def lipsIndices_def at_index_def nanoid_def
        marker_at_def call_def Let_def)

section \<open>Properties of the overlays\<close>

lemma indicesToXY_loop_eq:
  "indicesToXY_loop indices lms acc =
     (if \<forall>i\<in>set indices. i < length lms
      then Some (acc @ map (\<lambda>i. \<lparr>px = lm0 (lms ! i), py = lm1 (lms ! i)\<rparr>) indices)
      else None)"
  by (induction indices arbitrary: acc) (auto simp: at_index_def)

lemma indicesToXY_eq:
  "indicesToXY indices lms =
     (if lms \<noteq> [] \<and> (\<forall>i\<in>set indices. i < length lms)
      then Some (map (\<lambda>i. \<lparr>px = lm0 (lms ! i), py = lm1 (lms ! i)\<rparr>) indices)
      else None)"
  by (simp add: indicesToXY_def indicesToXY_loop_eq)

text \<open>The bounding box loops compute the least and the greatest coordinate.\<close>

lemma Min_insert_min:
  assumes "finite S"
  shows "Min (insert (min x b) S) = Min (insert b (insert x S))"
proof (cases "S = {}")
  case True
  then show ?thesis by (simp add: min.commute)
next
  case False
  then show ?thesis using assms by (simp add: min.assoc min.commute min.left_commute)
qed

lemma Max_insert_max:
  assumes "finite S"
  shows "Max (insert (max x b) S) = Max (insert b (insert x S))"
proof (cases "S = {}")
  case True
  then show ?thesis by (simp add: max.commute)
next
  case False
  then show ?thesis using assms by (simp add: max.assoc max.commute max.left_commute)
qed

lemma lower_eq: "lower bound v = Some (case bound of None \<Rightarrow> v | Some b \<Rightarrow> min v b)"
  by (simp add: lower_def min_def split: option.splits)

lemma upper_eq: "upper bound v = Some (case bound of None \<Rightarrow> v | Some b \<Rightarrow> max v b)"
  by (simp add: upper_def max_def split: option.splits)

lemma bounds_loop_Some:
  assumes "minX bs = Some a" and "maxX bs = Some b" and "minY bs = Some c" and "maxY bs = Some d"
  shows "bounds_loop lms bs =
           \<lparr>minX = Some (Min (insert a (lm0 ` set lms))), maxX = Some (Max (insert b (lm0 ` set lms))),
            minY = Some (Min (insert c (lm1 ` set lms))), maxY = Some (Max (insert d (lm1 ` set lms)))\<rparr>"
  using assms
proof (induction lms arbitrary: bs a b c d)
  case Nil
  then show ?case by simp
next
  case (Cons lm lms)
  let ?bs = "\<lparr>minX = lower (minX bs) (lm0 lm), maxX = upper (maxX bs) (lm0 lm),
        minY = lower (minY bs) (lm1 lm), maxY = upper (maxY bs) (lm1 lm)\<rparr>"
  have "bounds_loop (lm # lms) bs = bounds_loop lms ?bs" by simp
  also have "\<dots> = \<lparr>minX = Some (Min (insert (min (lm0 lm) a) (lm0 ` set lms))),
            maxX = Some (Max (insert (max (lm0 lm) b) (lm0 ` set lms))),
            minY = Some (Min (insert (min (lm1 lm) c) (lm1 ` set lms))),
            maxY = Some (Max (insert (max (lm1 lm) d) (lm1 ` set lms)))\<rparr>"
    using Cons.prems by (intro Cons.IH) (simp_all add: lower_eq upper_eq)
  finally show ?case
    by (simp add: Min_insert_min Max_insert_max)
qed

lemma bounds_loop_unbounded:
  assumes "lms \<noteq> []"
  shows "bounds_loop lms unbounded =
           \<lparr>minX = Some (Min (lm0 ` set lms)), maxX = Some (Max (lm0 ` set lms)),
            minY = Some (Min (lm1 ` set lms)), maxY = Some (Max (lm1 ` set lms))\<rparr>"
proof -
  obtain lm rest where l: "lms = lm # rest" using assms by (cases lms) auto
  let ?bs = "\<lparr>minX = Some (lm0 lm), maxX = Some (lm0 lm), minY = Some (lm1 lm), maxY = Some (lm1 lm)\<rparr>"
  have "bounds_loop lms unbounded = bounds_loop rest ?bs"
    by (simp add: l unbounded_def lower_eq upper_eq)
  also have "\<dots> = \<lparr>minX = Some (Min (insert (lm0 lm) (lm0 ` set rest))),
            maxX = Some (Max (insert (lm0 lm) (lm0 ` set rest))),
            minY = Some (Min (insert (lm1 lm) (lm1 ` set rest))),
            maxY = Some (Max (insert (lm1 lm) (lm1 ` set rest)))\<rparr>"
    by (rule bounds_loop_Some) simp_all
  finally show ?thesis by (simp add: l)
qed

lemma midline_fallback_eq:
  "midline_fallback lms =
     (if lms = [] then None
      else Some (\<lparr>px = (Min (lm0 ` set lms) + Max (lm0 ` set lms)) / 2, py = Min (lm1 ` set lms)\<rparr>,
                 \<lparr>px = (Min (lm0 ` set lms) + Max (lm0 ` set lms)) / 2, py = Max (lm1 ` set lms)\<rparr>))"
  by (simp add: midline_fallback_def bounds_loop_unbounded Let_def)

lemma midlineEndpoints_eq:
  "midlineEndpoints lms =
     (if 152 < length lms
      then Some (\<lparr>px = lm0 (lms ! 10), py = lm1 (lms ! 10)\<rparr>,
                 \<lparr>px = lm0 (lms ! 152), py = lm1 (lms ! 152)\<rparr>)
      else if lms = [] then None
      else Some (\<lparr>px = (Min (lm0 ` set lms) + Max (lm0 ` set lms)) / 2, py = Min (lm1 ` set lms)\<rparr>,
                 \<lparr>px = (Min (lm0 ` set lms) + Max (lm0 ` set lms)) / 2, py = Max (lm1 ` set lms)\<rparr>))"
  by (simp add: midlineEndpoints_def midline_fallback_eq at_index_def)

lemma eyeLine_eq:
  "eyeLine lms =
     (if 263 < length lms
      then Some (\<lparr>px = lm0 (lms ! 33), py = lm1 (lms ! 33)\<rparr>,
                 \<lparr>px = lm0 (lms ! 263), py = lm1 (lms ! 263)\<rparr>)
      else None)"
  by (simp add: eyeLine_def at_index_def)

lemma thirdsYs_eq:
  "thirdsYs lms =
     (if lms = [] \<or> Max (lm1 ` set lms) - Min (lm1 ` set lms) \<le> 0 then None
      else Some \<lparr>thirds_y1 = Min (lm1 ` set lms) + (Max (lm1 ` set lms) - Min (lm1 ` set lms)) / 3,
                 thirds_y2 = Min (lm1 ` set lms) + (2 * (Max (lm1 ` set lms) - Min (lm1 ` set lms))) / 3,
                 thirds_xmin = Min (lm0 ` set lms), thirds_xmax = Max (lm0 ` set lms)\<rparr>)"
  by (simp add: thirdsYs_def bounds_loop_unbounded Let_def)

text \<open>Which muscles and vessels are kept.\<close>

lemma muscleShape_eq:
  "muscleShape lms m =
     (if lms \<noteq> [] \<and> (\<forall>i\<in>set (boundary m). i < length lms)
      then Some \<lparr>shape_def = m,
                 boundaryPts = map (\<lambda>i. \<lparr>px = lm0 (lms ! i), py = lm1 (lms ! i)\<rparr>) (boundary m),
                 centerPts = (case centerline m of Some c \<Rightarrow> indicesToXY c lms | None \<Rightarrow> None)\<rparr>
      else None)"
  by (simp add: muscleShape_def indicesToXY_eq)

lemma map_filter_keys:
  assumes "\<And>v w. f v = Some w \<Longrightarrow> key w = v"
  shows "map key (List.map_filter f vs) = filter (\<lambda>v. f v \<noteq> None) vs"
proof (induction vs)
  case Nil
  then show ?case by (simp add: List.map_filter_simps)
next
  case (Cons v vs)
  then show ?case
    using assms by (cases "f v") (simp_all add: List.map_filter_simps)
qed

lemma musclesToRender_defs:
  "map shape_def (musclesToRender lms)
     = filter (\<lambda>m. lms \<noteq> [] \<and> (\<forall>i\<in>set (boundary m). i < length lms)) muscleDefs"
proof -
  have key: "shape_def w = m" if "muscleShape lms m = Some w" for m w
    using that by (auto simp: muscleShape_eq split: if_splits)
  have kept: "(muscleShape lms m \<noteq> None)
                = (lms \<noteq> [] \<and> (\<forall>i\<in>set (boundary m). i < length lms))" for m
    by (simp add: muscleShape_eq)
  have "map shape_def (List.map_filter (muscleShape lms) muscleDefs)
          = filter (\<lambda>m. muscleShape lms m \<noteq> None) muscleDefs"
    by (rule map_filter_keys) (rule key)
  then show ?thesis by (simp only: musclesToRender_def kept)
qed

lemma vesselShapes_defs:
  "map vshape_def (vesselShapes lms)
     = filter (\<lambda>v. lms \<noteq> [] \<and> (\<forall>i\<in>set (vessel_indices v). i < length lms)) vesselDefs"
proof -
  have key: "vshape_def w = v" if "vesselShape lms v = Some w" for v w
    using that by (auto simp: vesselShape_def split: option.splits)
  have kept: "(vesselShape lms v \<noteq> None)
                = (lms \<noteq> [] \<and> (\<forall>i\<in>set (vessel_indices v). i < length lms))" for v
    by (simp add: vesselShape_def indicesToXY_eq)
  have "map vshape_def (List.map_filter (vesselShape lms) vesselDefs)
          = filter (\<lambda>v. vesselShape lms v \<noteq> None) vesselDefs"
    by (rule map_filter_keys) (rule key)
  then show ?thesis by (simp only: vesselShapes_def kept)
qed

text \<open>
  A muscle that is kept has its centre line too: no index of a centre line is above
  the greatest index of the boundary of its muscle.
\<close>

lemma muscle_centerline_present:
  assumes "s \<in> set (musclesToRender lms)"
  shows "\<exists>c. centerline (shape_def s) = Some c
           \<and> centerPts s = Some (map (\<lambda>i. \<lparr>px = lm0 (lms ! i), py = lm1 (lms ! i)\<rparr>) c)"
proof -
  from assms obtain m where m: "m \<in> set muscleDefs" and s: "muscleShape lms m = Some s"
    by (auto simp: musclesToRender_def List.map_filter_def)
  from s have b: "lms \<noteq> []" "\<forall>i\<in>set (boundary m). i < length lms"
    and eq: "s = \<lparr>shape_def = m,
                 boundaryPts = map (\<lambda>i. \<lparr>px = lm0 (lms ! i), py = lm1 (lms ! i)\<rparr>) (boundary m),
                 centerPts = (case centerline m of Some c \<Rightarrow> indicesToXY c lms | None \<Rightarrow> None)\<rparr>"
    by (simp_all add: muscleShape_eq split: if_splits)
  have "\<exists>c. centerline m = Some c \<and> (\<forall>i\<in>set c. i < length lms)"
    using m b(2) by (auto simp: muscleDefs_def)
  then show ?thesis
    using b(1) eq by (auto simp: indicesToXY_eq)
qed

text \<open>Drawing the overlays never throws.\<close>

lemma samplesAlong_returns: "\<exists>samples. samplesAlong pts n = Inr samples"
proof (cases "length pts < 2 \<or> polyline_length pts = 0")
  case True
  then show ?thesis by (auto simp: samplesAlong_def segLens_loop_start)
next
  case False
  then have pos: "0 < polyline_length pts"
    using polyline_length_nonneg [of pts] by simp
  have "\<forall>s'<n. \<exists>smp. sample_at pts (seg_lens pts) (polyline_length pts) n s' = Inr smp"
    using sample_at_ok [OF _ pos] by blast
  from samples_loop_all [OF this, of 0 "[]"] False show ?thesis
    by (simp add: samplesAlong_def segLens_loop_start)
qed

lemma draw_all_returns:
  assumes "\<forall>v\<in>set vs. \<exists>ps. draw v = Inr ps"
  shows "\<exists>ps. draw_all draw vs = Inr ps"
  using assms by (induction vs) auto

lemma draw_muscles_returns: "\<exists>ps. draw_muscles showMuscles lms = Inr ps"
proof -
  have "\<exists>ps. draw_muscle m = Inr ps" for m
    using samplesAlong_returns
      [of "case centerPts m of Some c \<Rightarrow> c | None \<Rightarrow> boundaryPts m" 12]
    by (auto simp: draw_muscle_def Let_def)
  then show ?thesis
    by (simp add: draw_muscles_def draw_all_returns)
qed

lemma draw_vessels_returns: "\<exists>ps. draw_vessels showVessels lms = Inr ps"
proof -
  have "\<exists>ps. draw_vessel w = Inr ps" if "w \<in> set (vesselShapes lms)" for w
  proof -
    from that obtain v where v: "v \<in> set vesselDefs" and w: "vesselShape lms v = Some w"
      by (auto simp: vesselShapes_def List.map_filter_def)
    from w have "length (vessel_pts w) = length (vessel_indices v)"
      by (auto simp: vesselShape_def indicesToXY_eq split: if_splits)
    moreover have "vessel_indices v \<noteq> []" using v by (auto simp: vesselDefs_def)
    ultimately show ?thesis by (simp add: draw_vessel_def at_index_def)
  qed
  then show ?thesis
    by (simp add: draw_vessels_def draw_all_returns)
qed

text \<open>What drawing a list of shapes gives, shape by shape.\<close>

lemma draw_all_concat:
  assumes "\<forall>v\<in>set vs. \<exists>ps. draw v = Inr ps \<and> P v ps"
  shows "\<exists>pss. list_all2 P vs pss \<and> draw_all draw vs = Inr (concat pss)"
  using assms
proof (induction vs)
  case Nil
  then show ?case by simp
next
  case (Cons v vs)
  from Cons.prems obtain ps where ps: "draw v = Inr ps" "P v ps" by auto
  from Cons obtain pss where pss: "list_all2 P vs pss" "draw_all draw vs = Inr (concat pss)"
    by auto
  have "list_all2 P (v # vs) (ps # pss)" using ps(2) pss(1) by simp
  moreover have "draw_all draw (v # vs) = Inr (concat (ps # pss))"
    using ps(1) pss(2) by simp
  ultimately show ?case by blast
qed

lemma draw_all_Nil_iff:
  assumes "\<forall>v\<in>set vs. \<exists>p ps. draw v = Inr (p # ps)"
  shows "draw_all draw vs = Inr [] \<longleftrightarrow> vs = []"
proof (cases vs)
  case Nil
  then show ?thesis by simp
next
  case (Cons v rest)
  with assms obtain p ps where "draw v = Inr (p # ps)" by auto
  then show ?thesis
    using Cons by (cases "draw_all draw rest") simp_all
qed

text \<open>The points of a shape that is kept, and what is drawn for it.\<close>

lemma muscle_boundary_present:
  assumes "s \<in> set (musclesToRender lms)"
  shows "boundaryPts s
           = map (\<lambda>i. \<lparr>px = lm0 (lms ! i), py = lm1 (lms ! i)\<rparr>) (boundary (shape_def s))"
proof -
  from assms obtain m where "muscleShape lms m = Some s"
    by (auto simp: musclesToRender_def List.map_filter_def)
  then show ?thesis by (auto simp: muscleShape_eq split: if_splits)
qed

lemma vessel_pts_present:
  assumes "w \<in> set (vesselShapes lms)"
  shows "vshape_def w \<in> set vesselDefs
       \<and> vessel_pts w
           = map (\<lambda>i. \<lparr>px = lm0 (lms ! i), py = lm1 (lms ! i)\<rparr>) (vessel_indices (vshape_def w))"
proof -
  from assms obtain v where "v \<in> set vesselDefs" "vesselShape lms v = Some w"
    by (auto simp: vesselShapes_def List.map_filter_def)
  then show ?thesis
    by (auto simp: vesselShape_def indicesToXY_eq split: if_splits)
qed

lemma draw_muscle_kept:
  assumes "s \<in> set (musclesToRender lms)"
  shows "\<exists>c samples. centerPts s = Some c \<and> samplesAlong c 12 = Inr samples
           \<and> draw_muscle s
               = Inr (Line (flattenPts (boundaryPts s)) # Line (flattenPts (boundaryPts s))
                      # fibres samples 0)"
proof -
  from muscle_centerline_present [OF assms] obtain c where c: "centerPts s = Some c" by auto
  from samplesAlong_returns [of c 12] obtain samples where "samplesAlong c 12 = Inr samples"
    by auto
  then show ?thesis using c by (simp add: draw_muscle_def Let_def)
qed

lemma draw_vessel_kept:
  assumes "w \<in> set (vesselShapes lms)"
  shows "\<exists>p0 rest. vessel_pts w = p0 # rest
           \<and> draw_vessel w
               = Inr [Line (flattenPts (vessel_pts w)),
                      Text (vessel_label (vshape_def w)) (px p0 + 6) (py p0 - 12)]"
proof -
  from vessel_pts_present [OF assms]
  have "length (vessel_pts w) = length (vessel_indices (vshape_def w))"
    and "vshape_def w \<in> set vesselDefs" by simp_all
  moreover have "vessel_indices v \<noteq> []" if "v \<in> set vesselDefs" for v
    using that by (auto simp: vesselDefs_def)
  ultimately have "vessel_pts w \<noteq> []" by fastforce
  then obtain p0 rest where "vessel_pts w = p0 # rest" by (cases "vessel_pts w") auto
  then show ?thesis by (simp add: draw_vessel_def at_index_def)
qed

lemma draw_muscles_prims:
  "\<exists>pss. list_all2
            (\<lambda>s ps. \<exists>c samples. centerPts s = Some c \<and> samplesAlong c 12 = Inr samples
               \<and> ps = Line (flattenPts (boundaryPts s)) # Line (flattenPts (boundaryPts s))
                        # fibres samples 0)
            (musclesToRender lms) pss
         \<and> draw_muscles showMuscles lms = Inr (if showMuscles then concat pss else [])"
proof -
  have "\<forall>s\<in>set (musclesToRender lms). \<exists>ps. draw_muscle s = Inr ps
          \<and> (\<exists>c samples. centerPts s = Some c \<and> samplesAlong c 12 = Inr samples
               \<and> ps = Line (flattenPts (boundaryPts s)) # Line (flattenPts (boundaryPts s))
                        # fibres samples 0)"
    using draw_muscle_kept [of _ lms] by fastforce
  from draw_all_concat [where draw = draw_muscle, OF this]
  show ?thesis by (auto simp: draw_muscles_def)
qed

lemma draw_muscles_Nil_iff:
  "draw_muscles showMuscles lms = Inr [] \<longleftrightarrow> \<not> showMuscles \<or> musclesToRender lms = []"
proof -
  have "\<forall>s\<in>set (musclesToRender lms). \<exists>p ps. draw_muscle s = Inr (p # ps)"
    using draw_muscle_kept [of _ lms] by fastforce
  from draw_all_Nil_iff [OF this] show ?thesis by (simp add: draw_muscles_def)
qed

lemma draw_vessels_prims:
  "\<exists>pss. list_all2
            (\<lambda>w ps. \<exists>p0 rest. vessel_pts w = p0 # rest
               \<and> ps = [Line (flattenPts (vessel_pts w)),
                       Text (vessel_label (vshape_def w)) (px p0 + 6) (py p0 - 12)])
            (vesselShapes lms) pss
         \<and> draw_vessels showVessels lms = Inr (if showVessels then concat pss else [])"
proof -
  have "\<forall>w\<in>set (vesselShapes lms). \<exists>ps. draw_vessel w = Inr ps
          \<and> (\<exists>p0 rest. vessel_pts w = p0 # rest
               \<and> ps = [Line (flattenPts (vessel_pts w)),
                       Text (vessel_label (vshape_def w)) (px p0 + 6) (py p0 - 12)])"
    using draw_vessel_kept [of _ lms] by fastforce
  from draw_all_concat [where draw = draw_vessel, OF this]
  show ?thesis by (auto simp: draw_vessels_def)
qed

lemma draw_vessels_Nil_iff:
  "draw_vessels showVessels lms = Inr [] \<longleftrightarrow> \<not> showVessels \<or> vesselShapes lms = []"
proof -
  have "\<forall>w\<in>set (vesselShapes lms). \<exists>p ps. draw_vessel w = Inr (p # ps)"
    using draw_vessel_kept [of _ lms] by fastforce
  from draw_all_Nil_iff [OF this] show ?thesis by (simp add: draw_vessels_def)
qed

text \<open>
  C3, as amended, for a mesh without holes (every entry of the array is a landmark, as
  its type \<^verbatim>\<open>Landmark[]\<close> says). A list of mesh indices gives points only when the
  mesh has every one of them. Hence a muscle is kept exactly when the mesh has every
  index of its boundary (its centre line is then there too), a vessel exactly when the
  mesh has every index of its path, and the eye-line exactly when the mesh has the index
  263. Drawing never throws, and what is drawn for the muscles is, one muscle that is kept
  after the other and nothing else, the boundary of the muscle twice (the fill and the
  outline) and the fibres along its centre line; for the vessels it is, one vessel that is
  kept after the other and nothing else, the path of the vessel and its label at the
  first point. So nothing at all is drawn for the muscles exactly when they are switched
  off or none is kept, and likewise for the vessels and for the eye-line. The midline is
  different: without the index 152 it is drawn down the middle of the bounding box of the
  mesh, and it is left out only for an empty mesh. The thirds use no index at all: they
  come from the bounding box and are left out for an empty mesh and for a box without
  height.
\<close>

theorem overlay_guards:
  "indicesToXY indices lms =
     (if lms \<noteq> [] \<and> (\<forall>i\<in>set indices. i < length lms)
      then Some (map (\<lambda>i. \<lparr>px = lm0 (lms ! i), py = lm1 (lms ! i)\<rparr>) indices)
      else None)
   \<and> map shape_def (musclesToRender lms)
       = filter (\<lambda>m. lms \<noteq> [] \<and> (\<forall>i\<in>set (boundary m). i < length lms)) muscleDefs
   \<and> (\<forall>s\<in>set (musclesToRender lms). centerPts s \<noteq> None)
   \<and> (\<forall>s\<in>set (musclesToRender lms).
         boundaryPts s
           = map (\<lambda>i. \<lparr>px = lm0 (lms ! i), py = lm1 (lms ! i)\<rparr>) (boundary (shape_def s)))
   \<and> map vshape_def (vesselShapes lms)
       = filter (\<lambda>v. lms \<noteq> [] \<and> (\<forall>i\<in>set (vessel_indices v). i < length lms)) vesselDefs
   \<and> (\<forall>w\<in>set (vesselShapes lms).
         vessel_pts w
           = map (\<lambda>i. \<lparr>px = lm0 (lms ! i), py = lm1 (lms ! i)\<rparr>)
               (vessel_indices (vshape_def w)))
   \<and> (\<exists>ps. draw_muscles showMuscles lms = Inr ps)
   \<and> (musclesToRender lms = [] \<longrightarrow> draw_muscles showMuscles lms = Inr [])
   \<and> (\<exists>pss. list_all2
               (\<lambda>s ps. \<exists>c samples. centerPts s = Some c \<and> samplesAlong c 12 = Inr samples
                  \<and> ps = Line (flattenPts (boundaryPts s)) # Line (flattenPts (boundaryPts s))
                           # fibres samples 0)
               (musclesToRender lms) pss
            \<and> draw_muscles showMuscles lms = Inr (if showMuscles then concat pss else []))
   \<and> (draw_muscles showMuscles lms = Inr [] \<longleftrightarrow> \<not> showMuscles \<or> musclesToRender lms = [])
   \<and> (\<exists>ps. draw_vessels showVessels lms = Inr ps)
   \<and> (vesselShapes lms = [] \<longrightarrow> draw_vessels showVessels lms = Inr [])
   \<and> (\<exists>pss. list_all2
               (\<lambda>w ps. \<exists>p0 rest. vessel_pts w = p0 # rest
                  \<and> ps = [Line (flattenPts (vessel_pts w)),
                          Text (vessel_label (vshape_def w)) (px p0 + 6) (py p0 - 12)])
               (vesselShapes lms) pss
            \<and> draw_vessels showVessels lms = Inr (if showVessels then concat pss else []))
   \<and> (draw_vessels showVessels lms = Inr [] \<longleftrightarrow> \<not> showVessels \<or> vesselShapes lms = [])
   \<and> eyeLine lms =
       (if 263 < length lms
        then Some (\<lparr>px = lm0 (lms ! 33), py = lm1 (lms ! 33)\<rparr>,
                   \<lparr>px = lm0 (lms ! 263), py = lm1 (lms ! 263)\<rparr>)
        else None)
   \<and> (draw_eyeLine showEyeLine lms = [] \<longleftrightarrow> \<not> showEyeLine \<or> length lms \<le> 263)
   \<and> midlineEndpoints lms =
       (if 152 < length lms
        then Some (\<lparr>px = lm0 (lms ! 10), py = lm1 (lms ! 10)\<rparr>,
                   \<lparr>px = lm0 (lms ! 152), py = lm1 (lms ! 152)\<rparr>)
        else if lms = [] then None
        else Some (\<lparr>px = (Min (lm0 ` set lms) + Max (lm0 ` set lms)) / 2, py = Min (lm1 ` set lms)\<rparr>,
                   \<lparr>px = (Min (lm0 ` set lms) + Max (lm0 ` set lms)) / 2, py = Max (lm1 ` set lms)\<rparr>))
   \<and> (draw_midline showMidline lms = [] \<longleftrightarrow> \<not> showMidline \<or> lms = [])
   \<and> thirdsYs lms =
       (if lms = [] \<or> Max (lm1 ` set lms) - Min (lm1 ` set lms) \<le> 0 then None
        else Some \<lparr>thirds_y1 = Min (lm1 ` set lms) + (Max (lm1 ` set lms) - Min (lm1 ` set lms)) / 3,
                   thirds_y2 = Min (lm1 ` set lms) + (2 * (Max (lm1 ` set lms) - Min (lm1 ` set lms))) / 3,
                   thirds_xmin = Min (lm0 ` set lms), thirds_xmax = Max (lm0 ` set lms)\<rparr>)
   \<and> (draw_thirds showThirds lms = []
        \<longleftrightarrow> \<not> showThirds \<or> lms = [] \<or> Max (lm1 ` set lms) - Min (lm1 ` set lms) \<le> 0)"
proof (intro conjI)
  show "\<forall>s\<in>set (musclesToRender lms). centerPts s \<noteq> None"
    using muscle_centerline_present [of _ lms] by fastforce
  show "\<forall>s\<in>set (musclesToRender lms).
          boundaryPts s
            = map (\<lambda>i. \<lparr>px = lm0 (lms ! i), py = lm1 (lms ! i)\<rparr>) (boundary (shape_def s))"
    using muscle_boundary_present [of _ lms] by blast
  show "\<forall>w\<in>set (vesselShapes lms).
          vessel_pts w
            = map (\<lambda>i. \<lparr>px = lm0 (lms ! i), py = lm1 (lms ! i)\<rparr>)
                (vessel_indices (vshape_def w))"
    using vessel_pts_present [of _ lms] by blast
  show "draw_eyeLine showEyeLine lms = [] \<longleftrightarrow> \<not> showEyeLine \<or> length lms \<le> 263"
    by (cases showEyeLine) (auto simp: draw_eyeLine_def eyeLine_eq)
  show "draw_midline showMidline lms = [] \<longleftrightarrow> \<not> showMidline \<or> lms = []"
    by (cases showMidline) (auto simp: draw_midline_def midlineEndpoints_eq)
  show "draw_thirds showThirds lms = []
        \<longleftrightarrow> \<not> showThirds \<or> lms = [] \<or> Max (lm1 ` set lms) - Min (lm1 ` set lms) \<le> 0"
    by (cases showThirds) (auto simp: draw_thirds_def thirdsYs_eq)
  show "musclesToRender lms = [] \<longrightarrow> draw_muscles showMuscles lms = Inr []"
    by (simp add: draw_muscles_def)
  show "vesselShapes lms = [] \<longrightarrow> draw_vessels showVessels lms = Inr []"
    by (simp add: draw_vessels_def)
qed (rule indicesToXY_eq musclesToRender_defs vesselShapes_defs draw_muscles_returns
       draw_vessels_returns eyeLine_eq midlineEndpoints_eq thirdsYs_eq
       draw_muscles_prims draw_muscles_Nil_iff draw_vessels_prims draw_vessels_Nil_iff)+

lemma full_mesh_length: "length full_mesh = 478" and full_mesh_not_Nil: "full_mesh \<noteq> []"
proof -
  show "length full_mesh = 478" by (simp add: full_mesh_def)
  then show "full_mesh \<noteq> []" by auto
qed

lemma partial_mesh_length: "length partial_mesh = 200"
  and partial_mesh_not_Nil: "partial_mesh \<noteq> []"
proof -
  show "length partial_mesh = 200" by (simp add: partial_mesh_def)
  then show "partial_mesh \<noteq> []" by auto
qed

lemma partial_mesh_nth:
  "i < 200 \<Longrightarrow> partial_mesh ! i = \<lparr>lm0 = real i, lm1 = 2 * real i, lm2 = None\<rparr>"
  by (simp add: partial_mesh_def)

text \<open>What is drawn for the vessels on the mesh of 200 landmarks.\<close>

lemma draw_vessels_partial_mesh:
  "draw_vessels True partial_mesh
     = Inr [Line [2, 4, 98, 196, 4, 8, 5, 10], Text ''Angular (L)'' 8 (- 8),
            Line [61, 122, 62, 124, 63, 126, 64, 128, 65, 130, 66, 132],
            Text ''Superior labial'' 67 110]"
  by (simp add: draw_vessels_def vesselShapes_def vesselDefs_def List.map_filter_simps
        vesselShape_def indicesToXY_eq partial_mesh_length partial_mesh_not_Nil partial_mesh_nth
        draw_vessel_def at_index_def)

text \<open>
  On the full mesh every muscle and vessel is kept and the eye-line is there. On the
  mesh of 200 landmarks only the mentalis and two of the vessels are kept, and they
  alone are drawn. On the mesh of two landmarks no muscle, no vessel and no eye-line is
  kept or drawn, while the midline and the thirds are.
\<close>

theorem overlay_guards_witness:
  "map shape_def (musclesToRender full_mesh) = muscleDefs
   \<and> map vshape_def (vesselShapes full_mesh) = vesselDefs
   \<and> eyeLine full_mesh \<noteq> None
   \<and> map muscle_id (map shape_def (musclesToRender partial_mesh)) = [''mentalis'']
   \<and> draw_muscles True partial_mesh \<noteq> Inr []
   \<and> map vessel_id (map vshape_def (vesselShapes partial_mesh)) = [''angular_l'', ''sup_labial'']
   \<and> draw_vessels True partial_mesh
       = Inr [Line [2, 4, 98, 196, 4, 8, 5, 10], Text ''Angular (L)'' 8 (- 8),
              Line [61, 122, 62, 124, 63, 126, 64, 128, 65, 130, 66, 132],
              Text ''Superior labial'' 67 110]
   \<and> draw_eyeLine True partial_mesh = []
   \<and> indicesToXY [1, 152] two_landmarks = None
   \<and> musclesToRender two_landmarks = []
   \<and> draw_muscles True two_landmarks = Inr []
   \<and> vesselShapes two_landmarks = []
   \<and> draw_vessels True two_landmarks = Inr []
   \<and> draw_eyeLine True two_landmarks = []
   \<and> midlineEndpoints two_landmarks = Some (\<lparr>px = 5, py = 0\<rparr>, \<lparr>px = 5, py = 20\<rparr>)
   \<and> thirdsYs two_landmarks
       = Some \<lparr>thirds_y1 = 20 / 3, thirds_y2 = 40 / 3, thirds_xmin = 0, thirds_xmax = 10\<rparr>"
proof -
  have big: "map shape_def (musclesToRender full_mesh) = muscleDefs
      \<and> map vshape_def (vesselShapes full_mesh) = vesselDefs \<and> eyeLine full_mesh \<noteq> None"
    using overlay_guards [of "[]" full_mesh True True True True True]
    by (simp add: full_mesh_length full_mesh_not_Nil muscleDefs_def vesselDefs_def)
  have kept: "map shape_def (musclesToRender partial_mesh) = [muscleDefs ! 3]
      \<and> map vshape_def (vesselShapes partial_mesh) = [vesselDefs ! 2, vesselDefs ! 4]
      \<and> draw_eyeLine True partial_mesh = []"
    using overlay_guards [of "[]" partial_mesh True True True True True]
    by (simp add: partial_mesh_length partial_mesh_not_Nil muscleDefs_def vesselDefs_def)
  then have "musclesToRender partial_mesh \<noteq> []" by auto
  then have drawn: "draw_muscles True partial_mesh \<noteq> Inr []"
    using overlay_guards [of "[]" partial_mesh True True True True True] by simp
  have ids: "map muscle_id (map shape_def (musclesToRender partial_mesh)) = [''mentalis'']
      \<and> map vessel_id (map vshape_def (vesselShapes partial_mesh))
          = [''angular_l'', ''sup_labial'']"
    using kept by (simp add: muscleDefs_def vesselDefs_def)
  have small: "indicesToXY [1, 152] two_landmarks = None
      \<and> musclesToRender two_landmarks = []
      \<and> draw_muscles True two_landmarks = Inr []
      \<and> vesselShapes two_landmarks = []
      \<and> draw_vessels True two_landmarks = Inr []
      \<and> draw_eyeLine True two_landmarks = []
      \<and> midlineEndpoints two_landmarks = Some (\<lparr>px = 5, py = 0\<rparr>, \<lparr>px = 5, py = 20\<rparr>)
      \<and> thirdsYs two_landmarks
          = Some \<lparr>thirds_y1 = 20 / 3, thirds_y2 = 40 / 3, thirds_xmin = 0, thirds_xmax = 10\<rparr>"
    using overlay_guards [of "[1, 152]" two_landmarks True True True True True]
    by (simp add: two_landmarks_def muscleDefs_def vesselDefs_def)
  from big kept drawn ids small show ?thesis
    by (simp add: draw_vessels_partial_mesh)
qed

text \<open>
  C3 as the specification states it fails for the midline: on a mesh of two landmarks
  the indices 10 and 152 are missing, and the midline is drawn all the same, from the
  bounding box.
\<close>

theorem midline_substituted_counterexample:
  "at_index two_landmarks 10 = None \<and> at_index two_landmarks 152 = None
   \<and> midlineEndpoints two_landmarks = Some (\<lparr>px = 5, py = 0\<rparr>, \<lparr>px = 5, py = 20\<rparr>)
   \<and> draw_midline True two_landmarks = [Line [5, 0, 5, 20], Text ''Midline'' 11 16]"
  by (simp add: two_landmarks_def at_index_def midlineEndpoints_def midline_fallback_def
        unbounded_def lower_def upper_def draw_midline_def Let_def)

end
